theory Spec2Isabelle
  imports Complex_Main "HOL-Library.Word" "HOL-Library.Signed_Division" "HOL-Library.Sublist"
    "HOL-Library.AList"
begin

section \<open>The canvas engine of miniDraw (engine.hpp, engine.cpp)\<close>

text \<open>
  The engine is a C++ class with four public methods (\<open>resize\<close>, \<open>execute\<close>,
  \<open>pointerEvent\<close>, \<open>tick\<close>) over six private members. Every method becomes a
  function from the engine state to the new state. C++ \<open>int\<close> is a 32-bit word read
  in two's complement (\<open>sint\<close>); \<open>std::size_t\<close> values are vector sizes and are
  natural numbers; \<open>std::vector\<close> is a list; \<open>strokeIndex_\<close> is a partial map,
  since the code only looks keys up, stores and erases; \<open>presences_\<close> is an association
  list with unique keys, since \<open>tick\<close> iterates over it (the order of the list stands for
  the unspecified iteration order of the hash table). The members are named without
  their trailing underscore, and the fields of the structs carry the struct as a prefix.
  Where C++ leaves the behaviour undefined the function returns \<open>None\<close>.

  The engine stores \<open>float\<close> values and never computes with them, so the type of floats is
  the type parameter \<open>'f\<close>. Commands carry JavaScript numbers (doubles, the type
  parameter \<open>'d\<close>); the conversion \<open>static_cast<float>\<close> is the parameter
  \<open>to_float\<close> of the functions that read a command or an event.
\<close>

subsection \<open>Data model (engine.hpp)\<close>

type_synonym int32 = "32 word"

record 'f Rectangle =
  rect_id :: string
  rect_name :: string
  rect_x :: 'f
  rect_y :: 'f
  rect_width :: 'f
  rect_height :: 'f
  rect_color :: string

record 'f Presence =
  pres_id :: string
  pres_color :: string
  pres_x :: 'f
  pres_y :: 'f

record 'f StrokePoint =
  pt_x :: 'f
  pt_y :: 'f

record 'f Stroke =
  stroke_id :: string
  stroke_name :: string
  stroke_color :: string
  stroke_size :: 'f
  stroke_points :: "'f StrokePoint list"

record 'f Engine =
  width :: int32
  height :: int32
  rectangles :: "'f Rectangle list"
  strokes :: "'f Stroke list"
  strokeIndex :: "string \<rightharpoonup> nat"
  presences :: "(int32 \<times> 'f Presence) list"

text \<open>
  A command is the JavaScript object handed to \<open>execute\<close>: the code reads its
  \<open>type\<close> and then only the fields of the branch taken. An event is the object handed
  to \<open>pointerEvent\<close>. The fields a branch reads are present and of the right type:
  the binding layer rejects other objects before they reach the engine.
\<close>

record 'd Command =
  cmd_type :: string
  cmd_id :: string
  cmd_x :: 'd
  cmd_y :: 'd
  cmd_width :: 'd
  cmd_height :: 'd
  cmd_size :: 'd
  cmd_color :: string

record 'd Event =
  ev_type :: string
  ev_pointerId :: int32
  ev_x :: 'd
  ev_y :: 'd

subsection \<open>Decimal output of integers\<close>

text \<open>
  \<open>stream << index + 1\<close> on a \<open>std::size_t\<close> and \<open>std::to_string\<close> on an
  \<open>int\<close> print decimal digits, most significant first, without padding.
\<close>

definition digit_char :: "nat \<Rightarrow> char" where
  "digit_char d = char_of (48 + d)"

function decimal :: "nat \<Rightarrow> string" where
  "decimal n = (if n < 10 then [digit_char n] else decimal (n div 10) @ [digit_char (n mod 10)])"
  by pat_completeness auto
termination
  by (relation "measure (\<lambda>n. n)") auto

declare decimal.simps [simp del]

definition to_string :: "int32 \<Rightarrow> string" where
  "to_string i = (if sint i < 0 then CHR ''-'' # decimal (nat (- sint i)) else decimal (nat (sint i)))"

subsection \<open>Helpers of the anonymous namespace\<close>

definition makeRectangleId :: "nat \<Rightarrow> string" where
  "makeRectangleId index = ''rect-'' @ decimal (index + 1)"

definition makeRectangleName :: "nat \<Rightarrow> string" where
  "makeRectangleName index = ''Rectangle '' @ decimal (index + 1)"

definition makeStrokeName :: "nat \<Rightarrow> string" where
  "makeStrokeName index = ''Trace '' @ decimal (index + 1)"

definition palette :: "string list" where
  "palette = [''#22d3ee'', ''#f97316'', ''#a855f7'', ''#facc15'', ''#34d399'', ''#ef4444'']"

text \<open>
  \<open>std::abs\<close> on \<open>int\<close>, with the negation wrapping around at \<open>INT_MIN\<close>.
\<close>

definition abs_int32 :: "int32 \<Rightarrow> int32" where
  "abs_int32 p = (if sint p < 0 then - p else p)"

text \<open>
  The operator \<open>%\<close> of C++ on \<open>int\<close>: the remainder of the division that truncates
  towards zero (\<open>smod\<close> on the signed values).
\<close>

definition rem_int32 :: "int32 \<Rightarrow> int32 \<Rightarrow> int32" where
  "rem_int32 a b = word_of_int (sint a smod sint b)"

text \<open>
  \<open>palette[normalized]\<close> converts the \<open>int\<close> to \<open>size_t\<close> (the unsigned reading
  of the same bits) and reads the array without a bounds check; a read outside the six
  entries is undefined behaviour, the value \<open>None\<close> here.
\<close>

definition colorForPointer :: "int32 \<Rightarrow> string option" where
  "colorForPointer pointer_id =
     (let normalized = rem_int32 (abs_int32 pointer_id) (word_of_nat (length palette));
          i = unat normalized
      in if i < length palette then Some (palette ! i) else None)"

subsection \<open>Engine methods\<close>

definition Engine_ctor :: "'f Engine" where
  "Engine_ctor = \<lparr>width = 0, height = 0, rectangles = [], strokes = [],
     strokeIndex = Map.empty, presences = []\<rparr>"

definition resize :: "'f Engine \<Rightarrow> int32 \<Rightarrow> int32 \<Rightarrow> 'f Engine" where
  "resize e w h =
     (let e1 = e\<lparr>width := w\<rparr>;
          e2 = e1\<lparr>height := h\<rparr>;
          e3 = (if sint (width e2) < 0 then e2\<lparr>width := 0\<rparr> else e2)
      in if sint (height e3) < 0 then e3\<lparr>height := 0\<rparr> else e3)"

definition makeRectangle :: "'f Engine \<Rightarrow> 'f \<Rightarrow> 'f \<Rightarrow> 'f \<Rightarrow> 'f \<Rightarrow> string \<Rightarrow> 'f Rectangle" where
  "makeRectangle e x y w h color =
     (let index = length (rectangles e)
      in \<lparr>rect_id = makeRectangleId index, rect_name = makeRectangleName index,
          rect_x = x, rect_y = y, rect_width = w, rect_height = h, rect_color = color\<rparr>)"

definition makeStroke :: "string \<Rightarrow> string \<Rightarrow> 'f \<Rightarrow> 'f \<Rightarrow> 'f \<Rightarrow> string \<Rightarrow> 'f Stroke" where
  "makeStroke ident name x y sz color =
     \<lparr>stroke_id = ident, stroke_name = name, stroke_color = color, stroke_size = sz,
      stroke_points = [] @ [\<lparr>pt_x = x, pt_y = y\<rparr>]\<rparr>"

text \<open>
  \<open>findStroke\<close> returns a pointer into \<open>strokes_\<close> or \<open>nullptr\<close>: the position of
  the stroke, or \<open>None\<close>.
\<close>

definition findStroke :: "'f Engine \<Rightarrow> string \<Rightarrow> nat option" where
  "findStroke e ident =
     (case strokeIndex e ident of
        None \<Rightarrow> None
      | Some index \<Rightarrow> if index \<ge> length (strokes e) then None else Some index)"

definition execute :: "('d \<Rightarrow> 'f) \<Rightarrow> 'f Engine \<Rightarrow> 'd Command \<Rightarrow> 'f Engine" where
  "execute to_float e command =
     (if cmd_type command = ''createRectangle'' then
        e\<lparr>rectangles := rectangles e @
             [makeRectangle e (to_float (cmd_x command)) (to_float (cmd_y command))
                (to_float (cmd_width command)) (to_float (cmd_height command)) (cmd_color command)]\<rparr>
      else if cmd_type command = ''startStroke'' then
        (let name = makeStrokeName (length (strokes e));
             stroke = makeStroke (cmd_id command) name (to_float (cmd_x command))
                        (to_float (cmd_y command)) (to_float (cmd_size command)) (cmd_color command);
             e1 = e\<lparr>strokeIndex := (strokeIndex e)(stroke_id stroke \<mapsto> length (strokes e))\<rparr>
         in e1\<lparr>strokes := strokes e1 @ [stroke]\<rparr>)
      else if cmd_type command = ''updateStroke'' then
        (case findStroke e (cmd_id command) of
           None \<Rightarrow> e
         | Some k \<Rightarrow>
             e\<lparr>strokes := (strokes e)[k := (strokes e ! k)
                  \<lparr>stroke_points := stroke_points (strokes e ! k) @
                     [\<lparr>pt_x = to_float (cmd_x command), pt_y = to_float (cmd_y command)\<rparr>]\<rparr>]\<rparr>)
      else if cmd_type command = ''finishStroke'' then
        e\<lparr>strokeIndex := (strokeIndex e)(cmd_id command := None)\<rparr>
      else e)"

text \<open>
  \<open>updatePresence\<close>: \<open>find\<close> is \<open>map_of\<close>, \<open>emplace\<close> of an absent key adds an
  entry, and the assignments through the iterator change the entry found
  (\<open>set_position\<close>). It fails (undefined behaviour) exactly where \<open>colorForPointer\<close>
  reads outside the palette.
\<close>

fun set_position :: "int32 \<Rightarrow> 'f \<Rightarrow> 'f \<Rightarrow> (int32 \<times> 'f Presence) list \<Rightarrow> (int32 \<times> 'f Presence) list" where
  "set_position k x y [] = []"
| "set_position k x y ((k', p) # ps) =
     (if k' = k then (k', p\<lparr>pres_x := x, pres_y := y\<rparr>) # ps else (k', p) # set_position k x y ps)"

definition updatePresence :: "'f Engine \<Rightarrow> int32 \<Rightarrow> 'f \<Rightarrow> 'f \<Rightarrow> 'f Engine option" where
  "updatePresence e pointer_id x y =
     (case map_of (presences e) pointer_id of
        None \<Rightarrow>
          (case colorForPointer pointer_id of
             None \<Rightarrow> None
           | Some c \<Rightarrow>
               Some (e\<lparr>presences := presences e @
                  [(pointer_id, \<lparr>pres_id = to_string pointer_id, pres_color = c, pres_x = x, pres_y = y\<rparr>)]\<rparr>))
      | Some p \<Rightarrow> Some (e\<lparr>presences := set_position pointer_id x y (presences e)\<rparr>))"

definition pointerEvent :: "('d \<Rightarrow> 'f) \<Rightarrow> 'f Engine \<Rightarrow> 'd Event \<Rightarrow> 'f Engine option" where
  "pointerEvent to_float e event =
     (if ev_type event \<noteq> ''pointerMove'' then Some e
      else updatePresence e (ev_pointerId event) (to_float (ev_x event)) (to_float (ev_y event)))"

subsection \<open>The snapshot (tick)\<close>

text \<open>
  \<open>tick\<close> builds a JavaScript value through \<open>emscripten::val\<close>: objects are
  lists of properties in the order they were set, arrays are lists. \<open>val::set\<close> assigns
  a property of an object or an element of an array; assigning the element one past the
  end of an array appends, assigning further out leaves holes (\<open>Undefined\<close>).
\<close>

datatype 'f val =
    Undefined
  | Str string
  | Num 'f
  | Arr "'f val list"
  | Obj "(string \<times> 'f val) list"

fun obj_set :: "'f val \<Rightarrow> string \<Rightarrow> 'f val \<Rightarrow> 'f val" where
  "obj_set (Obj kvs) k v = Obj (AList.update k v kvs)"
| "obj_set w k v = w"

fun arr_set :: "'f val \<Rightarrow> nat \<Rightarrow> 'f val \<Rightarrow> 'f val" where
  "arr_set (Arr xs) i v =
     (if i < length xs then Arr (xs[i := v])
      else Arr (xs @ replicate (i - length xs) Undefined @ [v]))"
| "arr_set w i v = w"

text \<open>Reading a property, as a caller of \<open>tick\<close> does.\<close>

fun val_get :: "'f val \<Rightarrow> string \<Rightarrow> 'f val" where
  "val_get (Obj kvs) k = (case map_of kvs k of None \<Rightarrow> Undefined | Some v \<Rightarrow> v)"
| "val_get w k = Undefined"

text \<open>The bodies of the loops of \<open>tick\<close>.\<close>

definition rect_shape :: "'f Rectangle \<Rightarrow> 'f val" where
  "rect_shape rect =
     (let shape = Obj [];
          shape = obj_set shape ''id'' (Str (rect_id rect));
          shape = obj_set shape ''name'' (Str (rect_name rect));
          shape = obj_set shape ''kind'' (Str ''rectangle'');
          shape = obj_set shape ''x'' (Num (rect_x rect));
          shape = obj_set shape ''y'' (Num (rect_y rect));
          shape = obj_set shape ''width'' (Num (rect_width rect));
          shape = obj_set shape ''height'' (Num (rect_height rect));
          shape = obj_set shape ''color'' (Str (rect_color rect))
      in shape)"

definition point_val :: "'f StrokePoint \<Rightarrow> 'f val" where
  "point_val point =
     (let pv = Obj [];
          pv = obj_set pv ''x'' (Num (pt_x point));
          pv = obj_set pv ''y'' (Num (pt_y point))
      in pv)"

function points_loop :: "'f StrokePoint list \<Rightarrow> nat \<Rightarrow> 'f val \<Rightarrow> 'f val" where
  "points_loop pts index points =
     (if index < length pts
      then points_loop pts (Suc index) (arr_set points index (point_val (pts ! index)))
      else points)"
  by pat_completeness auto
termination
  by (relation "measure (\<lambda>(pts, index, points). length pts - index)") auto

declare points_loop.simps [simp del]

definition stroke_shape :: "'f Stroke \<Rightarrow> 'f val" where
  "stroke_shape stroke =
     (let shape = Obj [];
          shape = obj_set shape ''id'' (Str (stroke_id stroke));
          shape = obj_set shape ''name'' (Str (stroke_name stroke));
          shape = obj_set shape ''kind'' (Str ''stroke'');
          shape = obj_set shape ''color'' (Str (stroke_color stroke));
          shape = obj_set shape ''size'' (Num (stroke_size stroke));
          points = points_loop (stroke_points stroke) 0 (Arr []);
          shape = obj_set shape ''points'' points
      in shape)"

definition presence_val :: "'f Presence \<Rightarrow> 'f val" where
  "presence_val presence =
     (let pv = Obj [];
          pv = obj_set pv ''id'' (Str (pres_id presence));
          pv = obj_set pv ''color'' (Str (pres_color presence));
          pv = obj_set pv ''x'' (Num (pres_x presence));
          pv = obj_set pv ''y'' (Num (pres_y presence))
      in pv)"

text \<open>
  The first loop runs over the positions of \<open>rectangles_\<close>; the loops over
  \<open>strokes_\<close> and \<open>presences_\<close> are range-based. Each carries the array built so
  far and the next position to assign.
\<close>

function rect_loop :: "'f Rectangle list \<Rightarrow> nat \<Rightarrow> 'f val \<times> nat \<Rightarrow> 'f val \<times> nat" where
  "rect_loop rects index (shapes, shape_index) =
     (if index < length rects
      then rect_loop rects (Suc index)
             (arr_set shapes shape_index (rect_shape (rects ! index)), Suc shape_index)
      else (shapes, shape_index))"
  by pat_completeness auto
termination
  by (relation "measure (\<lambda>(rects, index, acc). length rects - index)") auto

declare rect_loop.simps [simp del]

fun stroke_loop :: "'f Stroke list \<Rightarrow> 'f val \<times> nat \<Rightarrow> 'f val \<times> nat" where
  "stroke_loop [] (shapes, shape_index) = (shapes, shape_index)"
| "stroke_loop (stroke # rest) (shapes, shape_index) =
     stroke_loop rest (arr_set shapes shape_index (stroke_shape stroke), Suc shape_index)"

fun presence_loop :: "(int32 \<times> 'f Presence) list \<Rightarrow> 'f val \<times> nat \<Rightarrow> 'f val \<times> nat" where
  "presence_loop [] (out, presence_index) = (out, presence_index)"
| "presence_loop ((k, presence) # rest) (out, presence_index) =
     presence_loop rest (arr_set out presence_index (presence_val presence), Suc presence_index)"

definition tick :: "'f Engine \<Rightarrow> 'f val" where
  "tick e =
     (let (shapes, shape_index) = rect_loop (rectangles e) 0 (Arr [], 0);
          (shapes, shape_index) = stroke_loop (strokes e) (shapes, shape_index);
          (out, presence_index) = presence_loop (presences e) (Arr [], 0);
          document = Obj [];
          document = obj_set document ''id'' (Str ''doc-native'');
          document = obj_set document ''name'' (Str ''Composition native'');
          document = obj_set document ''shapes'' shapes;
          state = Obj [];
          state = obj_set state ''document'' document;
          state = obj_set state ''presences'' out
      in state)"

definition createEngine :: "int32 \<Rightarrow> int32 \<Rightarrow> 'f Engine" where
  "createEngine w h = resize Engine_ctor w h"

subsection \<open>Sequences of calls\<close>

text \<open>
  The public interface, one constructor per method. \<open>tick\<close> is a \<open>const\<close> method
  that assigns no member: as a step it returns the state it was given, and its result is
  \<open>tick e\<close>.
\<close>

datatype 'd Call =
    Resize int32 int32
  | Execute "'d Command"
  | PointerEvent "'d Event"
  | Tick

fun step :: "('d \<Rightarrow> 'f) \<Rightarrow> 'f Engine \<Rightarrow> 'd Call \<Rightarrow> 'f Engine option" where
  "step to_float e (Resize w h) = Some (resize e w h)"
| "step to_float e (Execute command) = Some (execute to_float e command)"
| "step to_float e (PointerEvent event) = pointerEvent to_float e event"
| "step to_float e Tick = Some e"

fun run :: "('d \<Rightarrow> 'f) \<Rightarrow> 'f Engine \<Rightarrow> 'd Call list \<Rightarrow> 'f Engine option" where
  "run to_float e [] = Some e"
| "run to_float e (c # cs) =
     (case step to_float e c of None \<Rightarrow> None | Some e' \<Rightarrow> run to_float e' cs)"

fun execute_all :: "('d \<Rightarrow> 'f) \<Rightarrow> 'f Engine \<Rightarrow> 'd Command list \<Rightarrow> 'f Engine" where
  "execute_all to_float e [] = e"
| "execute_all to_float e (c # cs) = execute_all to_float (execute to_float e c) cs"

subsection \<open>Commands and events as callers build them\<close>

text \<open>
  The objects of the command table, for concrete runs: each sets \<open>type\<close> and the fields
  its branch of \<open>execute\<close> reads; the other fields are never read and are zero or empty
  here. Numbers are reals in these runs and the conversion to \<open>float\<close> is the identity,
  which is what it is on the numbers the runs use.
\<close>

definition createRectangle :: "real \<Rightarrow> real \<Rightarrow> real \<Rightarrow> real \<Rightarrow> string \<Rightarrow> real Command" where
  "createRectangle x y w h color =
     \<lparr>cmd_type = ''createRectangle'', cmd_id = [], cmd_x = x, cmd_y = y, cmd_width = w,
      cmd_height = h, cmd_size = 0, cmd_color = color\<rparr>"

definition startStroke :: "string \<Rightarrow> real \<Rightarrow> real \<Rightarrow> real \<Rightarrow> string \<Rightarrow> real Command" where
  "startStroke ident x y sz color =
     \<lparr>cmd_type = ''startStroke'', cmd_id = ident, cmd_x = x, cmd_y = y, cmd_width = 0,
      cmd_height = 0, cmd_size = sz, cmd_color = color\<rparr>"

definition updateStroke :: "string \<Rightarrow> real \<Rightarrow> real \<Rightarrow> real Command" where
  "updateStroke ident x y =
     \<lparr>cmd_type = ''updateStroke'', cmd_id = ident, cmd_x = x, cmd_y = y, cmd_width = 0,
      cmd_height = 0, cmd_size = 0, cmd_color = []\<rparr>"

definition finishStroke :: "string \<Rightarrow> real Command" where
  "finishStroke ident =
     \<lparr>cmd_type = ''finishStroke'', cmd_id = ident, cmd_x = 0, cmd_y = 0, cmd_width = 0,
      cmd_height = 0, cmd_size = 0, cmd_color = []\<rparr>"

definition pointerMove :: "int32 \<Rightarrow> real \<Rightarrow> real \<Rightarrow> real Event" where
  "pointerMove pointer_id x y =
     \<lparr>ev_type = ''pointerMove'', ev_pointerId = pointer_id, ev_x = x, ev_y = y\<rparr>"

subsection \<open>The invariant of the active-stroke index\<close>

text \<open>
  Every entry of \<open>strokeIndex_\<close> designates a position of \<open>strokes_\<close>, and the
  stroke there has the entry's id.
\<close>

definition index_consistent :: "'f Engine \<Rightarrow> bool" where
  "index_consistent e \<longleftrightarrow>
     (\<forall>ident k. strokeIndex e ident = Some k \<longrightarrow>
        k < length (strokes e) \<and> stroke_id (strokes e ! k) = ident)"

text \<open>
  Every entry of \<open>presences_\<close> carries the id and the colour it was created with.
\<close>

definition presence_entries_ok :: "'f Engine \<Rightarrow> bool" where
  "presence_entries_ok e \<longleftrightarrow>
     (\<forall>p q. map_of (presences e) p = Some q \<longrightarrow>
        pres_id q = to_string p \<and> colorForPointer p = Some (pres_color q))"

section \<open>Theorems\<close>

subsection \<open>resize\<close>

text \<open>
  C8. After \<open>resize(w, h)\<close> the stored width is \<open>max(w, 0)\<close> and the stored height is
  \<open>max(h, 0)\<close>, each clamped on its own, and no other member of the engine changes;
  \<open>resize(-5, 100)\<close> stores width 0 and height 100.
\<close>

theorem resize_clamps:
  "sint (width (resize e w h)) = max (sint w) 0
   \<and> sint (height (resize e w h)) = max (sint h) 0
   \<and> rectangles (resize e w h) = rectangles e
   \<and> strokes (resize e w h) = strokes e
   \<and> strokeIndex (resize e w h) = strokeIndex e
   \<and> presences (resize e w h) = presences e
   \<and> width (resize e (- 5) 100) = 0
   \<and> height (resize e (- 5) 100) = 100"
  by (simp add: resize_def Let_def)

subsection \<open>colorForPointer\<close>

lemma sint_abs_int32:
  assumes "sint p \<noteq> - 2147483648"
  shows "sint (abs_int32 p) = \<bar>sint p\<bar>"
proof (cases "sint p < 0")
  case False
  then show ?thesis by (simp add: abs_int32_def)
next
  case True
  have lo: "- 2147483648 \<le> sint p"
    using sint_ge [of p] by simp
  have "sint (- p) = signed_take_bit 31 (- sint p)"
    by (simp add: sint_word_minus)
  also have "\<dots> = - sint p"
    using True lo assms by (intro signed_take_bit_int_eq_self) simp_all
  finally show ?thesis using True by (simp add: abs_int32_def)
qed

lemma unat_rem_int32_6:
  assumes "0 \<le> sint a"
  shows "unat (rem_int32 a 6) = nat (sint a mod 6)"
proof -
  have "sint a smod 6 = sint a mod 6"
    using assms by (simp add: signed_modulo_int_def sgn_if)
  moreover have "0 \<le> sint a mod 6" "sint a mod 6 < 6" by simp_all
  ultimately show ?thesis
    by (simp add: rem_int32_def unat_eq_nat_uint uint_word_of_int take_bit_int_eq_self)
qed

text \<open>
  For every pointer id but \<open>INT_MIN\<close> the index is \<open>|pointer_id| mod 6\<close> and the
  read is inside the palette.
\<close>

lemma colorForPointer_in_range:
  assumes "sint p \<noteq> - 2147483648"
  shows "colorForPointer p = Some (palette ! nat (\<bar>sint p\<bar> mod 6))"
proof -
  have "unat (rem_int32 (abs_int32 p) 6) = nat (\<bar>sint p\<bar> mod 6)"
    using unat_rem_int32_6 [of "abs_int32 p"] sint_abs_int32 [OF assms] by simp
  moreover have "nat (\<bar>sint p\<bar> mod 6) < 6" by simp
  moreover have "length palette = 6" by (simp add: palette_def)
  ultimately show ?thesis
    by (simp add: colorForPointer_def Let_def)
qed

lemma colorForPointer_in_palette:
  assumes "sint p \<noteq> - 2147483648"
  shows "\<exists>c. colorForPointer p = Some c \<and> c \<in> set palette"
proof -
  have "nat (\<bar>sint p\<bar> mod 6) < length palette" by (simp add: palette_def)
  then have "palette ! nat (\<bar>sint p\<bar> mod 6) \<in> set palette" by (rule nth_mem)
  then show ?thesis using colorForPointer_in_range [OF assms] by simp
qed

text \<open>
  C10. The claim is that the index \<open>abs(pointerId) mod 6\<close> lies in \<open>[0, 5]\<close> for every
  32-bit pointer id, \<open>INT_MIN\<close> included. At \<open>INT_MIN\<close> the wrapped \<open>abs\<close> is
  \<open>INT_MIN\<close> again, the remainder is \<open>-2\<close>, and the read of the palette is out of
  bounds: the code does not return a palette colour there.
\<close>

theorem colorForPointer_INT_MIN:
  "sint (- 2147483648 :: int32) = - 2147483648
   \<and> abs_int32 (- 2147483648) = - 2147483648
   \<and> sint (rem_int32 (abs_int32 (- 2147483648)) (word_of_nat (length palette))) = - 2
   \<and> colorForPointer (- 2147483648) = None"
  by (simp add: colorForPointer_def rem_int32_def abs_int32_def palette_def signed_modulo_int_def)

subsection \<open>Decimal output\<close>

lemma digit_char_inj: "a < 10 \<Longrightarrow> b < 10 \<Longrightarrow> digit_char a = digit_char b \<Longrightarrow> a = b"
  by (simp add: digit_char_def)

lemma digit_char_values:
  "digit_char 0 = CHR ''0''" "digit_char 1 = CHR ''1''" "digit_char 2 = CHR ''2''"
  "digit_char 3 = CHR ''3''" "digit_char 4 = CHR ''4''" "digit_char 5 = CHR ''5''"
  "digit_char 6 = CHR ''6''" "digit_char 7 = CHR ''7''" "digit_char 8 = CHR ''8''"
  "digit_char 9 = CHR ''9''" "digit_char (Suc 0) = CHR ''1''"
  "digit_char (Suc (Suc 0)) = CHR ''2''"
  by (rule of_char_eqI [where ?'a = nat], simp add: digit_char_def)+

lemma decimal_nonempty: "decimal n \<noteq> []"
  by (subst decimal.simps) simp

text \<open>Different numbers print differently.\<close>

lemma decimal_inj: "decimal m = decimal n \<Longrightarrow> m = n"
proof (induction m arbitrary: n rule: decimal.induct)
  case (1 m)
  show ?case
  proof (cases "m < 10")
    case small_m: True
    show ?thesis
    proof (cases "n < 10")
      case True
      with small_m "1.prems" show ?thesis
        by (simp add: decimal.simps [of m] decimal.simps [of n] digit_char_inj)
    next
      case False
      with small_m "1.prems" decimal_nonempty [of "n div 10"] show ?thesis
        by (simp add: decimal.simps [of m] decimal.simps [of n])
    qed
  next
    case big_m: False
    show ?thesis
    proof (cases "n < 10")
      case True
      with big_m "1.prems" decimal_nonempty [of "m div 10"] show ?thesis
        by (simp add: decimal.simps [of m] decimal.simps [of n])
    next
      case False
      with big_m "1.prems" have parts: "decimal (m div 10) = decimal (n div 10)"
        and last: "digit_char (m mod 10) = digit_char (n mod 10)"
        by (simp_all add: decimal.simps [of m] decimal.simps [of n])
      from "1.IH" [OF big_m parts] have "m div 10 = n div 10" .
      moreover from last have "m mod 10 = n mod 10"
        by (intro digit_char_inj) simp_all
      ultimately show ?thesis
        by (metis div_mult_mod_eq)
    qed
  qed
qed

subsection \<open>Rectangles\<close>

lemma rectangles_execute:
  "rectangles (execute tf e c) =
     (if cmd_type c = ''createRectangle''
      then rectangles e @
        [\<lparr>rect_id = ''rect-'' @ decimal (Suc (length (rectangles e))),
          rect_name = ''Rectangle '' @ decimal (Suc (length (rectangles e))),
          rect_x = tf (cmd_x c), rect_y = tf (cmd_y c), rect_width = tf (cmd_width c),
          rect_height = tf (cmd_height c), rect_color = cmd_color c\<rparr>]
      else rectangles e)"
  by (simp add: execute_def makeRectangle_def makeRectangleId_def makeRectangleName_def
      Let_def split: option.split)

lemma rectangles_execute_all:
  "rectangles (execute_all tf e cs) =
     rectangles e @
     map (\<lambda>(i, c). \<lparr>rect_id = ''rect-'' @ decimal i, rect_name = ''Rectangle '' @ decimal i,
            rect_x = tf (cmd_x c), rect_y = tf (cmd_y c), rect_width = tf (cmd_width c),
            rect_height = tf (cmd_height c), rect_color = cmd_color c\<rparr>)
       (enumerate (Suc (length (rectangles e)))
          (filter (\<lambda>c. cmd_type c = ''createRectangle'') cs))"
proof (induction cs arbitrary: e)
  case Nil
  show ?case by simp
next
  case (Cons c cs)
  show ?case
    by (simp add: Cons.IH rectangles_execute)
qed

lemma Engine_ctor_fields [simp]:
  "width Engine_ctor = 0" "height Engine_ctor = 0" "rectangles Engine_ctor = []"
  "strokes Engine_ctor = []" "strokeIndex Engine_ctor = Map.empty" "presences Engine_ctor = []"
  by (simp_all add: Engine_ctor_def)

lemma map_index_enumerate:
  "map (\<lambda>(i, c). f i) (enumerate n xs) = map f [n..<n + length xs]"
proof -
  have "map (\<lambda>(i, c). f i) (enumerate n xs) = map f (map fst (enumerate n xs))"
    by (simp add: case_prod_unfold del: map_fst_enumerate)
  then show ?thesis by (simp only: map_fst_enumerate)
qed

lemma rect_ids_execute_all:
  "map rect_id (rectangles (execute_all tf Engine_ctor cs)) =
     map (\<lambda>i. ''rect-'' @ decimal i)
       [1..<Suc (length (filter (\<lambda>c. cmd_type c = ''createRectangle'') cs))]"
proof -
  let ?xs = "filter (\<lambda>c. cmd_type c = ''createRectangle'') cs"
  have "map rect_id (rectangles (execute_all tf Engine_ctor cs)) =
      map (\<lambda>(i, c). ''rect-'' @ decimal i) (enumerate 1 ?xs)"
    by (simp add: rectangles_execute_all case_prod_unfold comp_def)
  then show ?thesis
    by (simp only: map_index_enumerate) simp
qed

text \<open>
  C4. For every sequence of commands run on a new engine, the rectangles of the store are
  those of the \<open>createRectangle\<close> commands of the sequence in call order, the i-th
  (counting from 1) with id \<open>rect-i\<close>, name \<open>Rectangle i\<close> and the position, size
  and colour of its command; the number is the rectangle count at the time of insertion
  plus one.
\<close>

theorem createRectangle_numbering:
  "rectangles (execute_all tf Engine_ctor cs) =
     map (\<lambda>(i, c). \<lparr>rect_id = ''rect-'' @ decimal i, rect_name = ''Rectangle '' @ decimal i,
            rect_x = tf (cmd_x c), rect_y = tf (cmd_y c), rect_width = tf (cmd_width c),
            rect_height = tf (cmd_height c), rect_color = cmd_color c\<rparr>)
       (enumerate 1 (filter (\<lambda>c. cmd_type c = ''createRectangle'') cs))
   \<and> makeRectangleId (length (rectangles e)) = ''rect-'' @ decimal (length (rectangles e) + 1)
   \<and> makeRectangleName (length (rectangles e)) = ''Rectangle '' @ decimal (length (rectangles e) + 1)
   \<and> map decimal [1, 2, 3, 10, 11, 120] = [''1'', ''2'', ''3'', ''10'', ''11'', ''120'']
   \<and> map rect_id (rectangles (execute_all id Engine_ctor
        [createRectangle 0 0 10 10 ''red'', startStroke ''a'' 1 2 3 ''red'',
         createRectangle 5 5 20 20 ''blue''])) = [''rect-1'', ''rect-2'']
   \<and> map rect_name (rectangles (execute_all id Engine_ctor
        [createRectangle 0 0 10 10 ''red'', startStroke ''a'' 1 2 3 ''red'',
         createRectangle 5 5 20 20 ''blue''])) = [''Rectangle 1'', ''Rectangle 2'']"
proof -
  have ex: "map decimal [1, 2, 3, 10, 11, 120] = [''1'', ''2'', ''3'', ''10'', ''11'', ''120'']"
    by (simp add: decimal.simps digit_char_values)
  have run: "rectangles (execute_all id Engine_ctor
        [createRectangle 0 0 10 10 ''red'', startStroke ''a'' 1 2 3 ''red'',
         createRectangle 5 5 20 20 ''blue'']) =
       [\<lparr>rect_id = ''rect-1'', rect_name = ''Rectangle 1'', rect_x = 0, rect_y = 0,
          rect_width = 10, rect_height = 10, rect_color = ''red''\<rparr>,
        \<lparr>rect_id = ''rect-2'', rect_name = ''Rectangle 2'', rect_x = 5, rect_y = 5,
          rect_width = 20, rect_height = 20, rect_color = ''blue''\<rparr>]"
    by (simp add: rectangles_execute Engine_ctor_def createRectangle_def startStroke_def
        decimal.simps digit_char_values)
  show ?thesis
    unfolding run
    using ex
    by (simp add: rectangles_execute_all [of tf Engine_ctor cs]
        makeRectangleId_def makeRectangleName_def)
qed

subsection \<open>Identifiers\<close>

lemma findStroke_Some_iff:
  "findStroke e i = Some k \<longleftrightarrow> strokeIndex e i = Some k \<and> k < length (strokes e)"
  by (auto simp: findStroke_def split: option.splits)

lemma map_update_same: "k < length xs \<Longrightarrow> f y = f (xs ! k) \<Longrightarrow> map f (xs[k := y]) = map f xs"
  by (simp add: map_update list_update_same_conv)

lemma stroke_ids_execute:
  "map stroke_id (strokes (execute tf e c)) =
     (if cmd_type c = ''startStroke'' then map stroke_id (strokes e) @ [cmd_id c]
      else map stroke_id (strokes e))"
  by (simp add: execute_def makeStroke_def Let_def map_update_same findStroke_Some_iff
      split: option.split)

lemma stroke_ids_execute_all:
  "map stroke_id (strokes (execute_all tf e cs)) =
     map stroke_id (strokes e) @ map cmd_id (filter (\<lambda>c. cmd_type c = ''startStroke'') cs)"
proof (induction cs arbitrary: e)
  case Nil
  show ?case by simp
next
  case (Cons c cs)
  show ?case
    by (simp add: Cons.IH stroke_ids_execute)
qed

lemma rect_ids_distinct: "distinct (map rect_id (rectangles (execute_all tf Engine_ctor cs)))"
proof -
  have "inj_on (\<lambda>i. ''rect-'' @ decimal i) A" for A
    by (rule inj_onI) (simp add: decimal_inj)
  then show ?thesis
    by (simp add: rect_ids_execute_all distinct_map)
qed

text \<open>
  C1 as stated fails for strokes: \<open>startStroke\<close> with the id of a stroke that is already
  in the collection, active or finished, appends a second stroke with that id.
\<close>

theorem stroke_id_reuse_duplicates:
  "map stroke_id (strokes (execute_all id Engine_ctor
      [startStroke ''a'' 1 2 3 ''red'', startStroke ''a'' 4 5 3 ''red''])) = [''a'', ''a'']
   \<and> \<not> distinct (map stroke_id (strokes (execute_all id Engine_ctor
      [startStroke ''a'' 1 2 3 ''red'', startStroke ''a'' 4 5 3 ''red''])))
   \<and> \<not> distinct (map stroke_id (strokes (execute_all id Engine_ctor
      [startStroke ''a'' 1 2 3 ''red'', finishStroke ''a'', startStroke ''a'' 4 5 3 ''red''])))"
  by (simp add: stroke_ids_execute Engine_ctor_def startStroke_def finishStroke_def)

lemma startStroke_step:
  assumes "cmd_type c = ''startStroke''"
  shows "map stroke_id (strokes (execute tf e c)) = map stroke_id (strokes e) @ [cmd_id c]"
    and "take (length (strokes e)) (strokes (execute tf e c)) = strokes e"
    and "stroke_id (strokes (execute tf e c) ! length (strokes e)) = cmd_id c"
    and "strokeIndex (execute tf e c) = (strokeIndex e)(cmd_id c \<mapsto> length (strokes e))"
  using assms by (simp_all add: execute_def makeStroke_def Let_def)

text \<open>
  C1, amended. For every sequence of commands run on a new engine, no two rectangles of
  the store share an id; the ids of the strokes of the store are the ids of the
  \<open>startStroke\<close> commands of the sequence, in call order, so no two strokes share an id
  exactly when no two \<open>startStroke\<close> commands of the sequence carry the same id. In
  every state, \<open>startStroke\<close> keeps the strokes already in the collection, appends a
  stroke with the id of the command, whether or not a stroke has that id already, and
  points the active-stroke index entry of the id at the new stroke, which \<open>findStroke\<close>
  then returns.
\<close>

theorem ids_unique_unless_reused:
  "distinct (map rect_id (rectangles (execute_all tf Engine_ctor cs)))
   \<and> map stroke_id (strokes (execute_all tf Engine_ctor cs)) =
       map cmd_id (filter (\<lambda>c. cmd_type c = ''startStroke'') cs)
   \<and> distinct (map stroke_id (strokes (execute_all tf Engine_ctor cs))) =
       distinct (map cmd_id (filter (\<lambda>c. cmd_type c = ''startStroke'') cs))
   \<and> (cmd_type c = ''startStroke'' \<longrightarrow>
        map stroke_id (strokes (execute tf e c)) = map stroke_id (strokes e) @ [cmd_id c]
        \<and> take (length (strokes e)) (strokes (execute tf e c)) = strokes e
        \<and> stroke_id (strokes (execute tf e c) ! length (strokes e)) = cmd_id c
        \<and> strokeIndex (execute tf e c) = (strokeIndex e)(cmd_id c \<mapsto> length (strokes e))
        \<and> findStroke (execute tf e c) (cmd_id c) = Some (length (strokes e)))"
proof -
  have "findStroke (execute tf e c) (cmd_id c) = Some (length (strokes e))"
    if "cmd_type c = ''startStroke''"
    using that by (simp add: findStroke_def execute_def makeStroke_def Let_def)
  then show ?thesis
    by (simp add: rect_ids_distinct stroke_ids_execute_all startStroke_step)
qed

theorem ids_unique_unless_reused_witness:
  "cmd_type (startStroke ''a'' 4 5 3 ''red'') = ''startStroke''
   \<and> map stroke_id (strokes (execute id Engine_ctor (startStroke ''a'' 1 2 3 ''red''))) = [''a'']
   \<and> strokeIndex (execute id Engine_ctor (startStroke ''a'' 1 2 3 ''red'')) ''a'' = Some 0
   \<and> map stroke_id (strokes (execute id (execute id Engine_ctor (startStroke ''a'' 1 2 3 ''red''))
        (startStroke ''a'' 4 5 3 ''red''))) = [''a'', ''a'']
   \<and> strokeIndex (execute id (execute id Engine_ctor (startStroke ''a'' 1 2 3 ''red''))
        (startStroke ''a'' 4 5 3 ''red'')) ''a'' = Some 1
   \<and> findStroke (execute id (execute id Engine_ctor (startStroke ''a'' 1 2 3 ''red''))
        (startStroke ''a'' 4 5 3 ''red'')) ''a'' = Some 1
   \<and> stroke_points (strokes (execute id (execute id Engine_ctor (startStroke ''a'' 1 2 3 ''red''))
        (startStroke ''a'' 4 5 3 ''red'')) ! 1) = [\<lparr>pt_x = 4, pt_y = 5\<rparr>]"
proof -
  let ?E = "Engine_ctor :: real Engine"
  let ?s1 = "startStroke ''a'' 1 2 3 ''red''"
  let ?s2 = "startStroke ''a'' 4 5 3 ''red''"
  let ?e1 = "execute id ?E ?s1"
  have t: "cmd_type ?s2 = ''startStroke''" and i: "cmd_id ?s2 = ''a''"
    by (simp_all add: startStroke_def)
  have e1: "map stroke_id (strokes ?e1) = [''a'']" "strokeIndex ?e1 ''a'' = Some 0"
    "length (strokes ?e1) = 1"
    by (simp_all add: execute_def makeStroke_def startStroke_def Let_def)
  note T = ids_unique_unless_reused [where tf = id and e = ?e1 and c = ?s2,
      THEN conjunct2, THEN conjunct2, THEN conjunct2, rule_format, OF t]
  have ids: "map stroke_id (strokes (execute id ?e1 ?s2)) = [''a'', ''a'']"
    using T [THEN conjunct1] by (simp add: e1 i)
  have idx: "strokeIndex (execute id ?e1 ?s2) ''a'' = Some 1"
    using T [THEN conjunct2, THEN conjunct2, THEN conjunct2, THEN conjunct1] by (simp add: e1 i)
  have fnd: "findStroke (execute id ?e1 ?s2) ''a'' = Some 1"
    using T [THEN conjunct2, THEN conjunct2, THEN conjunct2, THEN conjunct2] by (simp add: e1 i)
  have pts: "stroke_points (strokes (execute id ?e1 ?s2) ! 1) = [\<lparr>pt_x = 4, pt_y = 5\<rparr>]"
    by (simp add: execute_def makeStroke_def startStroke_def Let_def)
  from t e1(1,2) ids idx fnd pts show ?thesis by simp
qed

subsection \<open>The active-stroke index\<close>

lemma index_consistent_ctor: "index_consistent Engine_ctor"
  by (simp add: index_consistent_def)

lemma index_consistent_resize: "index_consistent e \<Longrightarrow> index_consistent (resize e w h)"
  by (simp add: index_consistent_def resize_def Let_def)

lemma index_consistent_execute:
  assumes "index_consistent e"
  shows "index_consistent (execute tf e c)"
proof -
  consider (rect) "cmd_type c = ''createRectangle''"
    | (start) "cmd_type c = ''startStroke''"
    | (update) "cmd_type c = ''updateStroke''"
    | (finish) "cmd_type c = ''finishStroke''"
    | (other) "cmd_type c \<noteq> ''createRectangle''" "cmd_type c \<noteq> ''startStroke''"
        "cmd_type c \<noteq> ''updateStroke''" "cmd_type c \<noteq> ''finishStroke''"
    by blast
  then show ?thesis
  proof cases
    case rect
    with assms show ?thesis by (simp add: execute_def index_consistent_def)
  next
    case start
    with assms show ?thesis
      by (auto simp: execute_def index_consistent_def makeStroke_def Let_def nth_append
          less_Suc_eq)
  next
    case update
    with assms show ?thesis
      by (auto simp: execute_def index_consistent_def nth_list_update findStroke_Some_iff
          split: option.split)
  next
    case finish
    with assms show ?thesis
      by (auto simp: execute_def index_consistent_def split: if_splits)
  next
    case other
    with assms show ?thesis by (simp add: execute_def)
  qed
qed

lemma presences_only_updatePresence:
  "updatePresence e p x y = Some e' \<Longrightarrow>
     strokes e' = strokes e \<and> strokeIndex e' = strokeIndex e \<and> rectangles e' = rectangles e
     \<and> width e' = width e \<and> height e' = height e"
  by (auto simp: updatePresence_def split: option.splits)

lemma presences_only_pointerEvent:
  "pointerEvent tf e ev = Some e' \<Longrightarrow>
     strokes e' = strokes e \<and> strokeIndex e' = strokeIndex e \<and> rectangles e' = rectangles e
     \<and> width e' = width e \<and> height e' = height e"
  by (auto simp: pointerEvent_def dest: presences_only_updatePresence split: if_splits)

lemma index_consistent_step:
  "index_consistent e \<Longrightarrow> step tf e c = Some e' \<Longrightarrow> index_consistent e'"
proof (cases c)
  case (PointerEvent ev)
  assume "index_consistent e" "step tf e c = Some e'"
  with PointerEvent presences_only_pointerEvent [of tf e ev e'] show ?thesis
    by (simp add: index_consistent_def)
qed (auto simp: index_consistent_resize index_consistent_execute)

lemma index_consistent_run:
  "index_consistent e \<Longrightarrow> run tf e calls = Some e' \<Longrightarrow> index_consistent e'"
proof (induction calls arbitrary: e)
  case Nil
  then show ?case by simp
next
  case (Cons c calls)
  then show ?case
    by (auto split: option.splits dest: index_consistent_step)
qed

text \<open>
  C9. In every state reached from a new engine by any sequence of \<open>resize\<close>,
  \<open>execute\<close>, \<open>pointerEvent\<close> and \<open>tick\<close> calls, every entry \<open>(id, k)\<close> of the
  active-stroke index has \<open>k\<close> below the number of strokes and the stroke at position
  \<open>k\<close> has that id; so \<open>findStroke(id)\<close> returns that stroke and its bounds check
  does not fire.
\<close>

theorem active_index_consistent:
  assumes "run tf Engine_ctor calls = Some e" and "strokeIndex e ident = Some k"
  shows "k < length (strokes e) \<and> stroke_id (strokes e ! k) = ident \<and> findStroke e ident = Some k"
proof -
  have "index_consistent e"
    using index_consistent_run [OF index_consistent_ctor assms(1)] .
  with assms(2) show ?thesis
    by (simp add: index_consistent_def findStroke_Some_iff)
qed

text \<open>The equations that evaluate a concrete run.\<close>

lemmas eval_defs = execute_def resize_def pointerEvent_def updatePresence_def colorForPointer_def
  rem_int32_def abs_int32_def palette_def signed_modulo_int_def makeStroke_def makeStrokeName_def
  makeRectangle_def makeRectangleId_def makeRectangleName_def findStroke_def to_string_def
  createRectangle_def startStroke_def updateStroke_def finishStroke_def pointerMove_def
  Let_def decimal.simps digit_char_values

theorem active_index_consistent_witness:
  "\<exists>e. run id Engine_ctor
       [Resize 800 600, Execute (startStroke ''a'' 1 2 3 ''red''),
        Execute (startStroke ''b'' 4 5 3 ''blue''), PointerEvent (pointerMove 3 10 20), Tick,
        Execute (updateStroke ''b'' 6 7), Execute (finishStroke ''a'')] = Some e
     \<and> strokeIndex e ''b'' = Some 1
     \<and> 1 < length (strokes e) \<and> stroke_id (strokes e ! 1) = ''b'' \<and> findStroke e ''b'' = Some 1"
proof -
  let ?calls = "[Resize 800 600, Execute (startStroke ''a'' 1 2 3 ''red''),
        Execute (startStroke ''b'' 4 5 3 ''blue''), PointerEvent (pointerMove 3 10 20), Tick,
        Execute (updateStroke ''b'' 6 7), Execute (finishStroke ''a'')]"
  have "\<exists>e. run id Engine_ctor ?calls = Some e \<and> strokeIndex e ''b'' = Some 1"
    by (simp add: eval_defs Engine_ctor_def)
  then obtain e where r: "run id Engine_ctor ?calls = Some e" and i: "strokeIndex e ''b'' = Some 1"
    by blast
  from active_index_consistent [OF r i] r i show ?thesis by blast
qed

subsection \<open>Silent no-ops\<close>

lemma execute_unknown_id:
  assumes "cmd_type c = ''updateStroke'' \<or> cmd_type c = ''finishStroke''"
    and "strokeIndex e (cmd_id c) = None"
  shows "execute tf e c = e"
  using assms by (auto simp: execute_def findStroke_def fun_upd_idem)

lemma execute_unknown_kind:
  assumes "cmd_type c \<notin> {''createRectangle'', ''startStroke'', ''updateStroke'', ''finishStroke''}"
  shows "execute tf e c = e"
  using assms by (simp add: execute_def)

lemma strokeIndex_finish:
  "cmd_type c = ''finishStroke'' \<Longrightarrow> strokeIndex (execute tf e c) (cmd_id c) = None"
  by (simp add: execute_def)

text \<open>
  C3. An \<open>updateStroke\<close> or \<open>finishStroke\<close> command whose id is not in the active-stroke
  index leaves the whole engine state as it is, in every state; so does a command of any
  kind other than the four of the table, and so does \<open>pointerEvent\<close> with a type other
  than \<open>pointerMove\<close>. After \<open>finishStroke\<close> of an id, a further \<open>updateStroke\<close> or
  \<open>finishStroke\<close> of that id changes nothing.
\<close>

theorem silent_no_ops:
  "((cmd_type c = ''updateStroke'' \<or> cmd_type c = ''finishStroke'')
      \<and> strokeIndex e (cmd_id c) = None \<longrightarrow> execute tf e c = e)
   \<and> (cmd_type c \<notin> {''createRectangle'', ''startStroke'', ''updateStroke'', ''finishStroke''}
      \<longrightarrow> execute tf e c = e)
   \<and> (ev_type ev \<noteq> ''pointerMove'' \<longrightarrow> pointerEvent tf e ev = Some e)
   \<and> (cmd_type c = ''finishStroke''
      \<and> (cmd_type u = ''updateStroke'' \<or> cmd_type u = ''finishStroke'') \<and> cmd_id u = cmd_id c
      \<longrightarrow> execute tf (execute tf e c) u = execute tf e c)"
proof (intro conjI impI)
  assume "(cmd_type c = ''updateStroke'' \<or> cmd_type c = ''finishStroke'')
      \<and> strokeIndex e (cmd_id c) = None"
  then show "execute tf e c = e" by (simp add: execute_unknown_id)
next
  assume "cmd_type c \<notin> {''createRectangle'', ''startStroke'', ''updateStroke'', ''finishStroke''}"
  then show "execute tf e c = e" by (rule execute_unknown_kind)
next
  assume "ev_type ev \<noteq> ''pointerMove''"
  then show "pointerEvent tf e ev = Some e" by (simp add: pointerEvent_def)
next
  assume a: "cmd_type c = ''finishStroke''
      \<and> (cmd_type u = ''updateStroke'' \<or> cmd_type u = ''finishStroke'') \<and> cmd_id u = cmd_id c"
  then have "strokeIndex (execute tf e c) (cmd_id u) = None"
    by (simp add: strokeIndex_finish)
  with a show "execute tf (execute tf e c) u = execute tf e c"
    by (simp add: execute_unknown_id)
qed

theorem silent_no_ops_witness:
  "strokeIndex (execute_all id Engine_ctor [startStroke ''a'' 1 2 3 ''red'', finishStroke ''a''])
      ''a'' = None
   \<and> strokeIndex (execute_all id Engine_ctor [startStroke ''a'' 1 2 3 ''red'', finishStroke ''a''])
      ''missing-id'' = None
   \<and> execute id (execute_all id Engine_ctor [startStroke ''a'' 1 2 3 ''red'', finishStroke ''a''])
        (updateStroke ''a'' 5 5)
      = execute_all id Engine_ctor [startStroke ''a'' 1 2 3 ''red'', finishStroke ''a'']
   \<and> execute id (execute_all id Engine_ctor [startStroke ''a'' 1 2 3 ''red'', finishStroke ''a''])
        (finishStroke ''missing-id'')
      = execute_all id Engine_ctor [startStroke ''a'' 1 2 3 ''red'', finishStroke ''a'']
   \<and> execute id (execute_all id Engine_ctor [startStroke ''a'' 1 2 3 ''red'', finishStroke ''a''])
        ((finishStroke ''a'')\<lparr>cmd_type := ''deleteShape''\<rparr>)
      = execute_all id Engine_ctor [startStroke ''a'' 1 2 3 ''red'', finishStroke ''a'']
   \<and> pointerEvent id (execute_all id Engine_ctor [startStroke ''a'' 1 2 3 ''red'', finishStroke ''a''])
        ((pointerMove 3 10 20)\<lparr>ev_type := ''pointerDown''\<rparr>)
      = Some (execute_all id Engine_ctor [startStroke ''a'' 1 2 3 ''red'', finishStroke ''a''])
   \<and> execute id (execute id (execute id Engine_ctor (startStroke ''a'' 1 2 3 ''red''))
        (finishStroke ''a'')) (updateStroke ''a'' 5 5)
      = execute id (execute id Engine_ctor (startStroke ''a'' 1 2 3 ''red'')) (finishStroke ''a'')"
proof -
  let ?e = "execute_all id Engine_ctor [startStroke ''a'' 1 2 3 ''red'', finishStroke ''a'']"
  have i1: "strokeIndex ?e ''a'' = None" and i2: "strokeIndex ?e ''missing-id'' = None"
    by (simp_all add: eval_defs Engine_ctor_def)
  have t1: "cmd_type (updateStroke ''a'' 5 5) = ''updateStroke''"
    and d1: "cmd_id (updateStroke ''a'' 5 5) = ''a''"
    and t2: "cmd_type (finishStroke ''missing-id'') = ''finishStroke''"
    and d2: "cmd_id (finishStroke ''missing-id'') = ''missing-id''"
    and t3: "cmd_type (finishStroke ''a'') = ''finishStroke''"
    and d3: "cmd_id (finishStroke ''a'') = ''a''"
    by (simp_all add: updateStroke_def finishStroke_def)
  have t4: "cmd_type ((finishStroke ''a'')\<lparr>cmd_type := ''deleteShape''\<rparr>)
      \<notin> {''createRectangle'', ''startStroke'', ''updateStroke'', ''finishStroke''}"
    by simp
  have t5: "ev_type ((pointerMove 3 10 20)\<lparr>ev_type := ''pointerDown''\<rparr>) \<noteq> ''pointerMove''"
    by simp
  note thm1 = silent_no_ops [where c = "updateStroke ''a'' 5 5" and e = ?e and tf = id, THEN conjunct1, rule_format]
  note thm2 = silent_no_ops [where c = "finishStroke ''missing-id''" and e = ?e and tf = id, THEN conjunct1, rule_format]
  note thm3 = silent_no_ops [where c = "(finishStroke ''a'')\<lparr>cmd_type := ''deleteShape''\<rparr>" and e = ?e and tf = id,
      THEN conjunct2, THEN conjunct1, rule_format, OF t4]
  note thm4 = silent_no_ops [where ev = "(pointerMove 3 10 20)\<lparr>ev_type := ''pointerDown''\<rparr>" and e = ?e and tf = id,
      THEN conjunct2, THEN conjunct2, THEN conjunct1, rule_format, OF t5]
  note thm5 = silent_no_ops [where c = "finishStroke ''a''" and u = "updateStroke ''a'' 5 5"
      and e = "execute id Engine_ctor (startStroke ''a'' 1 2 3 ''red'')" and tf = id,
      THEN conjunct2, THEN conjunct2, THEN conjunct2, rule_format]
  have c1: "execute id ?e (updateStroke ''a'' 5 5) = ?e"
    using thm1 t1 d1 i1 by simp
  have c2: "execute id ?e (finishStroke ''missing-id'') = ?e"
    using thm2 t2 d2 i2 by simp
  have c5: "execute id (execute id (execute id Engine_ctor (startStroke ''a'' 1 2 3 ''red''))
        (finishStroke ''a'')) (updateStroke ''a'' 5 5)
      = execute id (execute id Engine_ctor (startStroke ''a'' 1 2 3 ''red'')) (finishStroke ''a'')"
    using thm5 t1 d1 t3 d3 by simp
  from i1 i2 c1 c2 thm3 thm4 c5 show ?thesis by blast
qed

subsection \<open>Stroke points\<close>

lemma execute_startStroke:
  assumes "cmd_type c = ''startStroke''"
  shows "strokes (execute tf e c) = strokes e @
           [\<lparr>stroke_id = cmd_id c, stroke_name = makeStrokeName (length (strokes e)),
             stroke_color = cmd_color c, stroke_size = tf (cmd_size c),
             stroke_points = [\<lparr>pt_x = tf (cmd_x c), pt_y = tf (cmd_y c)\<rparr>]\<rparr>]"
    and "strokeIndex (execute tf e c) = (strokeIndex e)(cmd_id c \<mapsto> length (strokes e))"
  using assms by (simp_all add: execute_def makeStroke_def Let_def)

lemma execute_updateStroke:
  assumes "cmd_type u = ''updateStroke''" and "strokeIndex e (cmd_id u) = Some k"
    and "k < length (strokes e)"
  shows "strokes (execute tf e u) =
           (strokes e)[k := (strokes e ! k)\<lparr>stroke_points := stroke_points (strokes e ! k) @
              [\<lparr>pt_x = tf (cmd_x u), pt_y = tf (cmd_y u)\<rparr>]\<rparr>]"
    and "strokeIndex (execute tf e u) = strokeIndex e"
  using assms by (simp_all add: execute_def findStroke_def)

lemma points_prefix_execute:
  assumes "j < length (strokes e)"
  shows "j < length (strokes (execute tf e c))
    \<and> prefix (stroke_points (strokes e ! j)) (stroke_points (strokes (execute tf e c) ! j))"
proof -
  consider (rect) "cmd_type c = ''createRectangle''"
    | (start) "cmd_type c = ''startStroke''"
    | (update) "cmd_type c = ''updateStroke''"
    | (finish) "cmd_type c = ''finishStroke''"
    | (other) "cmd_type c \<notin> {''createRectangle'', ''startStroke'', ''updateStroke'', ''finishStroke''}"
    by blast
  then show ?thesis
  proof cases
    case rect
    with assms show ?thesis by (simp add: execute_def)
  next
    case start
    with assms show ?thesis by (simp add: execute_startStroke nth_append)
  next
    case update
    with assms show ?thesis
      by (auto simp: execute_def findStroke_Some_iff nth_list_update split: option.split)
  next
    case finish
    with assms show ?thesis by (simp add: execute_def)
  next
    case other
    with assms show ?thesis by (simp add: execute_unknown_kind)
  qed
qed

lemma points_prefix_execute_all:
  "j < length (strokes e) \<Longrightarrow>
     j < length (strokes (execute_all tf e cs))
     \<and> prefix (stroke_points (strokes e ! j)) (stroke_points (strokes (execute_all tf e cs) ! j))"
proof (induction cs arbitrary: e)
  case Nil
  then show ?case by simp
next
  case (Cons c cs)
  from points_prefix_execute [OF Cons.prems, of tf c]
  have len: "j < length (strokes (execute tf e c))"
    and pre: "prefix (stroke_points (strokes e ! j)) (stroke_points (strokes (execute tf e c) ! j))"
    by simp_all
  from Cons.IH [OF len] pre show ?case
    by (auto intro: prefix_order.trans)
qed

lemma execute_all_updates:
  assumes "strokeIndex e i = Some k" and "k < length (strokes e)"
    and "\<forall>u \<in> set us. cmd_type u = ''updateStroke'' \<and> cmd_id u = i"
  shows "strokes (execute_all tf e us) =
           (strokes e)[k := (strokes e ! k)\<lparr>stroke_points := stroke_points (strokes e ! k) @
              map (\<lambda>u. \<lparr>pt_x = tf (cmd_x u), pt_y = tf (cmd_y u)\<rparr>) us\<rparr>]"
  using assms
proof (induction us arbitrary: e)
  case Nil
  then show ?case by simp
next
  case (Cons u us)
  from Cons.prems have u: "cmd_type u = ''updateStroke''" "strokeIndex e (cmd_id u) = Some k"
    by simp_all
  note step = execute_updateStroke [OF u Cons.prems(2), of tf]
  have "strokes (execute_all tf (execute tf e u) us) =
      (strokes (execute tf e u))[k := (strokes (execute tf e u) ! k)
         \<lparr>stroke_points := stroke_points (strokes (execute tf e u) ! k) @
              map (\<lambda>u. \<lparr>pt_x = tf (cmd_x u), pt_y = tf (cmd_y u)\<rparr>) us\<rparr>]"
    using Cons.prems by (intro Cons.IH) (simp_all add: step)
  then show ?case
    using Cons.prems(2) by (simp add: step)
qed

text \<open>
  C2. \<open>startStroke\<close> appends a stroke whose points are the single point of the command;
  \<open>updateStroke\<close> with an active id appends one point at the end of the stroke the index
  designates and changes no other stroke; over every sequence of commands each stroke
  stays at its position and its earlier points stay a prefix of its points; after
  \<open>startStroke\<close> and n \<open>updateStroke\<close> commands with its id the stroke has the n + 1
  points of the commands in call order. A point is the command's \<open>x\<close>, \<open>y\<close> converted
  to \<open>float\<close>.
\<close>

theorem stroke_points_append_only:
  "(cmd_type c = ''startStroke'' \<longrightarrow>
      strokes (execute tf e c) = strokes e @
        [\<lparr>stroke_id = cmd_id c, stroke_name = makeStrokeName (length (strokes e)),
          stroke_color = cmd_color c, stroke_size = tf (cmd_size c),
          stroke_points = [\<lparr>pt_x = tf (cmd_x c), pt_y = tf (cmd_y c)\<rparr>]\<rparr>])
   \<and> (cmd_type u = ''updateStroke'' \<and> strokeIndex e (cmd_id u) = Some k \<and> k < length (strokes e) \<longrightarrow>
      strokes (execute tf e u) =
        (strokes e)[k := (strokes e ! k)\<lparr>stroke_points := stroke_points (strokes e ! k) @
           [\<lparr>pt_x = tf (cmd_x u), pt_y = tf (cmd_y u)\<rparr>]\<rparr>])
   \<and> (j < length (strokes e) \<longrightarrow>
      j < length (strokes (execute_all tf e cs))
      \<and> prefix (stroke_points (strokes e ! j)) (stroke_points (strokes (execute_all tf e cs) ! j)))
   \<and> (cmd_type c = ''startStroke''
       \<and> (\<forall>u \<in> set us. cmd_type u = ''updateStroke'' \<and> cmd_id u = cmd_id c) \<longrightarrow>
      stroke_points (strokes (execute_all tf e (c # us)) ! length (strokes e)) =
        map (\<lambda>u. \<lparr>pt_x = tf (cmd_x u), pt_y = tf (cmd_y u)\<rparr>) (c # us))"
proof (intro conjI impI)
  assume "cmd_type c = ''startStroke''"
  then show "strokes (execute tf e c) = strokes e @
        [\<lparr>stroke_id = cmd_id c, stroke_name = makeStrokeName (length (strokes e)),
          stroke_color = cmd_color c, stroke_size = tf (cmd_size c),
          stroke_points = [\<lparr>pt_x = tf (cmd_x c), pt_y = tf (cmd_y c)\<rparr>]\<rparr>]"
    by (rule execute_startStroke)
next
  assume "cmd_type u = ''updateStroke'' \<and> strokeIndex e (cmd_id u) = Some k \<and> k < length (strokes e)"
  then show "strokes (execute tf e u) =
        (strokes e)[k := (strokes e ! k)\<lparr>stroke_points := stroke_points (strokes e ! k) @
           [\<lparr>pt_x = tf (cmd_x u), pt_y = tf (cmd_y u)\<rparr>]\<rparr>]"
    by (simp add: execute_updateStroke)
next
  assume "j < length (strokes e)"
  then show "j < length (strokes (execute_all tf e cs))"
    and "prefix (stroke_points (strokes e ! j)) (stroke_points (strokes (execute_all tf e cs) ! j))"
    by (simp_all add: points_prefix_execute_all)
next
  assume a: "cmd_type c = ''startStroke''
       \<and> (\<forall>u \<in> set us. cmd_type u = ''updateStroke'' \<and> cmd_id u = cmd_id c)"
  let ?e = "execute tf e c"
  let ?n = "length (strokes e)"
  from a have idx: "strokeIndex ?e (cmd_id c) = Some ?n" and len: "?n < length (strokes ?e)"
    and at: "stroke_points (strokes ?e ! ?n) = [\<lparr>pt_x = tf (cmd_x c), pt_y = tf (cmd_y c)\<rparr>]"
    by (simp_all add: execute_startStroke)
  from a have us: "\<forall>u \<in> set us. cmd_type u = ''updateStroke'' \<and> cmd_id u = cmd_id c"
    by simp
  show "stroke_points (strokes (execute_all tf e (c # us)) ! ?n) =
        map (\<lambda>u. \<lparr>pt_x = tf (cmd_x u), pt_y = tf (cmd_y u)\<rparr>) (c # us)"
    using len at by (simp add: execute_all_updates [OF idx len us])
qed

theorem stroke_points_append_only_witness:
  "cmd_type (startStroke ''a'' 1 2 3 ''red'') = ''startStroke''
   \<and> strokes (execute id Engine_ctor (startStroke ''a'' 1 2 3 ''red'')) =
       [\<lparr>stroke_id = ''a'', stroke_name = ''Trace 1'', stroke_color = ''red'', stroke_size = 3,
         stroke_points = [\<lparr>pt_x = 1, pt_y = 2\<rparr>]\<rparr>]
   \<and> strokeIndex (execute id Engine_ctor (startStroke ''a'' 1 2 3 ''red'')) ''a'' = Some 0
   \<and> strokes (execute id (execute id Engine_ctor (startStroke ''a'' 1 2 3 ''red''))
        (updateStroke ''a'' 3 4)) =
       [\<lparr>stroke_id = ''a'', stroke_name = ''Trace 1'', stroke_color = ''red'', stroke_size = 3,
         stroke_points = [\<lparr>pt_x = 1, pt_y = 2\<rparr>, \<lparr>pt_x = 3, pt_y = 4\<rparr>]\<rparr>]
   \<and> prefix [\<lparr>pt_x = 1, pt_y = 2\<rparr>]
        (stroke_points (strokes (execute_all id (execute id Engine_ctor (startStroke ''a'' 1 2 3 ''red''))
           [updateStroke ''a'' 3 4, finishStroke ''a'', updateStroke ''a'' 9 9,
            startStroke ''a'' 7 7 1 ''blue'', updateStroke ''a'' 8 8]) ! 0))
   \<and> stroke_points (strokes (execute_all id Engine_ctor
        [startStroke ''a'' 1 2 3 ''red'', updateStroke ''a'' 3 4, updateStroke ''a'' 5 6]) ! 0) =
       [\<lparr>pt_x = 1, pt_y = 2\<rparr>, \<lparr>pt_x = 3, pt_y = 4\<rparr>, \<lparr>pt_x = 5, pt_y = 6\<rparr>]"
proof -
  let ?E = "Engine_ctor :: real Engine"
  let ?c = "startStroke ''a'' 1 2 3 ''red''"
  let ?u = "updateStroke ''a'' 3 4"
  let ?us = "[updateStroke ''a'' 3 4, updateStroke ''a'' 5 6]"
  let ?cs = "[updateStroke ''a'' 3 4, finishStroke ''a'', updateStroke ''a'' 9 9,
            startStroke ''a'' 7 7 1 ''blue'', updateStroke ''a'' 8 8]"
  let ?e1 = "execute id ?E ?c"
  note T1 = stroke_points_append_only [where tf = id and e = ?E and c = ?c and us = ?us]
  note T2 = stroke_points_append_only [where tf = id and e = ?e1 and u = ?u and k = 0 and j = 0
      and cs = ?cs]
  have hc: "cmd_type ?c = ''startStroke''"
    by (simp add: startStroke_def)
  have hus: "\<forall>u \<in> set ?us. cmd_type u = ''updateStroke'' \<and> cmd_id u = cmd_id ?c"
    by (simp add: startStroke_def updateStroke_def)
  have a: "strokes ?e1 = strokes ?E @
        [\<lparr>stroke_id = cmd_id ?c, stroke_name = makeStrokeName (length (strokes ?E)),
          stroke_color = cmd_color ?c, stroke_size = id (cmd_size ?c),
          stroke_points = [\<lparr>pt_x = id (cmd_x ?c), pt_y = id (cmd_y ?c)\<rparr>]\<rparr>]"
    by (rule T1 [THEN conjunct1, rule_format, OF hc])
  have d: "stroke_points (strokes (execute_all id ?E (?c # ?us)) ! length (strokes ?E)) =
        map (\<lambda>u. \<lparr>pt_x = id (cmd_x u), pt_y = id (cmd_y u)\<rparr>) (?c # ?us)"
    by (rule T1 [THEN conjunct2, THEN conjunct2, THEN conjunct2, rule_format, OF conjI [OF hc hus]])
  have a': "strokes ?e1 =
       [\<lparr>stroke_id = ''a'', stroke_name = ''Trace 1'', stroke_color = ''red'', stroke_size = 3,
         stroke_points = [\<lparr>pt_x = 1, pt_y = 2\<rparr>]\<rparr>]"
    unfolding a by (simp add: startStroke_def makeStrokeName_def decimal.simps digit_char_values)
  have idx: "strokeIndex ?e1 ''a'' = Some 0"
    using execute_startStroke(2) [OF hc, of id ?E] by (simp add: startStroke_def)
  have hu: "cmd_type ?u = ''updateStroke'' \<and> strokeIndex ?e1 (cmd_id ?u) = Some 0
      \<and> 0 < length (strokes ?e1)"
    using idx a' by (simp add: updateStroke_def)
  have b: "strokes (execute id ?e1 ?u) =
        (strokes ?e1)[0 := (strokes ?e1 ! 0)\<lparr>stroke_points := stroke_points (strokes ?e1 ! 0) @
           [\<lparr>pt_x = id (cmd_x ?u), pt_y = id (cmd_y ?u)\<rparr>]\<rparr>]"
    by (rule T2 [THEN conjunct2, THEN conjunct1, rule_format, OF hu])
  have hj: "0 < length (strokes ?e1)" using hu by simp
  have c: "prefix (stroke_points (strokes ?e1 ! 0)) (stroke_points (strokes (execute_all id ?e1 ?cs) ! 0))"
    by (rule T2 [THEN conjunct2, THEN conjunct2, THEN conjunct1, rule_format, OF hj, THEN conjunct2])
  have b': "strokes (execute id ?e1 ?u) =
       [\<lparr>stroke_id = ''a'', stroke_name = ''Trace 1'', stroke_color = ''red'', stroke_size = 3,
         stroke_points = [\<lparr>pt_x = 1, pt_y = 2\<rparr>, \<lparr>pt_x = 3, pt_y = 4\<rparr>]\<rparr>]"
    unfolding b a' by (simp add: updateStroke_def)
  have c': "prefix [\<lparr>pt_x = 1, pt_y = 2\<rparr>] (stroke_points (strokes (execute_all id ?e1 ?cs) ! 0))"
    using c unfolding a' by simp
  have d': "stroke_points (strokes (execute_all id ?E (?c # ?us)) ! 0) =
       [\<lparr>pt_x = 1, pt_y = 2\<rparr>, \<lparr>pt_x = 3, pt_y = 4\<rparr>, \<lparr>pt_x = 5, pt_y = 6\<rparr>]"
    using d by (simp add: startStroke_def updateStroke_def)
  from hc a' idx b' c' d' show ?thesis by blast
qed

text \<open>
  The same with other commands in between: as long as no \<open>startStroke\<close> or
  \<open>finishStroke\<close> carries the id, the stroke the index designates collects the points of
  the \<open>updateStroke\<close> commands with that id, in call order, and nothing else.
\<close>

lemma stroke_points_step:
  assumes ok: "index_consistent e" and idx: "strokeIndex e i = Some k"
    and c: "cmd_id c = i \<longrightarrow> cmd_type c \<noteq> ''startStroke'' \<and> cmd_type c \<noteq> ''finishStroke''"
  shows "strokeIndex (execute tf e c) i = Some k
    \<and> stroke_points (strokes (execute tf e c) ! k) =
        stroke_points (strokes e ! k) @
          (if cmd_type c = ''updateStroke'' \<and> cmd_id c = i
           then [\<lparr>pt_x = tf (cmd_x c), pt_y = tf (cmd_y c)\<rparr>] else [])"
proof -
  from ok idx have k: "k < length (strokes e)" and kid: "stroke_id (strokes e ! k) = i"
    by (simp_all add: index_consistent_def)
  consider (rect) "cmd_type c = ''createRectangle''"
    | (start) "cmd_type c = ''startStroke''"
    | (update) "cmd_type c = ''updateStroke''"
    | (finish) "cmd_type c = ''finishStroke''"
    | (other) "cmd_type c \<notin> {''createRectangle'', ''startStroke'', ''updateStroke'', ''finishStroke''}"
    by blast
  then show ?thesis
  proof cases
    case rect
    with idx show ?thesis by (simp add: execute_def)
  next
    case start
    with c have "cmd_id c \<noteq> i" by blast
    with start idx k show ?thesis by (simp add: execute_startStroke nth_append)
  next
    case update
    show ?thesis
    proof (cases "strokeIndex e (cmd_id c)")
      case None
      with update have "execute tf e c = e" by (simp add: execute_unknown_id)
      moreover from None idx have "cmd_id c \<noteq> i" by auto
      ultimately show ?thesis using idx by simp
    next
      case (Some k')
      with ok have k': "k' < length (strokes e)" and k'id: "stroke_id (strokes e ! k') = cmd_id c"
        by (simp_all add: index_consistent_def)
      note step = execute_updateStroke [OF update Some k', of tf]
      show ?thesis
      proof (cases "cmd_id c = i")
        case True
        with Some idx have "k' = k" by simp
        with True update idx k show ?thesis by (simp add: step)
      next
        case False
        with kid k'id have "k' \<noteq> k" by auto
        with False idx show ?thesis by (simp add: step)
      qed
    qed
  next
    case finish
    with c have "cmd_id c \<noteq> i" by blast
    with finish idx show ?thesis by (simp add: execute_def)
  next
    case other
    with idx show ?thesis by (simp add: execute_unknown_kind)
  qed
qed

lemma stroke_points_interleaved:
  assumes "index_consistent e" and "strokeIndex e i = Some k"
    and "\<forall>c \<in> set cs. cmd_id c = i \<longrightarrow> cmd_type c \<noteq> ''startStroke'' \<and> cmd_type c \<noteq> ''finishStroke''"
  shows "stroke_points (strokes (execute_all tf e cs) ! k) =
     stroke_points (strokes e ! k) @
       map (\<lambda>u. \<lparr>pt_x = tf (cmd_x u), pt_y = tf (cmd_y u)\<rparr>)
         (filter (\<lambda>u. cmd_type u = ''updateStroke'' \<and> cmd_id u = i) cs)"
  using assms
proof (induction cs arbitrary: e)
  case Nil
  then show ?case by simp
next
  case (Cons c cs)
  from Cons.prems have c: "cmd_id c = i \<longrightarrow> cmd_type c \<noteq> ''startStroke'' \<and> cmd_type c \<noteq> ''finishStroke''"
    and cs: "\<forall>c \<in> set cs. cmd_id c = i \<longrightarrow> cmd_type c \<noteq> ''startStroke'' \<and> cmd_type c \<noteq> ''finishStroke''"
    by simp_all
  note step = stroke_points_step [OF Cons.prems(1,2) c, of tf]
  have ok': "index_consistent (execute tf e c)"
    using Cons.prems(1) by (rule index_consistent_execute)
  from Cons.IH [OF ok' step [THEN conjunct1] cs] step [THEN conjunct2]
  show ?case by simp
qed

subsection \<open>The snapshot\<close>

lemma rect_shape_eq:
  "rect_shape r = Obj [(''id'', Str (rect_id r)), (''name'', Str (rect_name r)),
     (''kind'', Str ''rectangle''), (''x'', Num (rect_x r)), (''y'', Num (rect_y r)),
     (''width'', Num (rect_width r)), (''height'', Num (rect_height r)),
     (''color'', Str (rect_color r))]"
  by (simp add: rect_shape_def)

lemma point_val_eq: "point_val p = Obj [(''x'', Num (pt_x p)), (''y'', Num (pt_y p))]"
  by (simp add: point_val_def)

lemma presence_val_eq:
  "presence_val p = Obj [(''id'', Str (pres_id p)), (''color'', Str (pres_color p)),
     (''x'', Num (pres_x p)), (''y'', Num (pres_y p))]"
  by (simp add: presence_val_def)

lemma arr_set_end: "arr_set (Arr xs) (length xs) v = Arr (xs @ [v])"
  by simp

lemma points_loop_eq:
  "index \<le> length pts \<Longrightarrow>
     points_loop pts index (Arr (map point_val (take index pts))) = Arr (map point_val pts)"
proof (induction pts index "Arr (map point_val (take index pts))" rule: points_loop.induct)
  case (1 pts index)
  show ?case
  proof (cases "index < length pts")
    case True
    then have "arr_set (Arr (map point_val (take index pts))) index (point_val (pts ! index)) =
        Arr (map point_val (take (Suc index) pts))"
      by (simp add: take_Suc_conv_app_nth)
    with True "1.hyps" show ?thesis
      by (subst points_loop.simps) simp
  next
    case False
    with "1.prems" show ?thesis
      by (subst points_loop.simps) simp
  qed
qed

lemma stroke_shape_eq:
  "stroke_shape s = Obj [(''id'', Str (stroke_id s)), (''name'', Str (stroke_name s)),
     (''kind'', Str ''stroke''), (''color'', Str (stroke_color s)), (''size'', Num (stroke_size s)),
     (''points'', Arr (map point_val (stroke_points s)))]"
  using points_loop_eq [of 0 "stroke_points s"] by (simp add: stroke_shape_def)

lemma rect_loop_eq:
  "index \<le> length rects \<Longrightarrow>
     rect_loop rects index (Arr (xs @ map rect_shape (take index rects)), length xs + index) =
       (Arr (xs @ map rect_shape rects), length xs + length rects)"
proof (induction rects index "(Arr (xs @ map rect_shape (take index rects)), length xs + index)"
    rule: rect_loop.induct)
  case (1 rects index)
  show ?case
  proof (cases "index < length rects")
    case True
    then have "arr_set (Arr (xs @ map rect_shape (take index rects))) (length xs + index)
          (rect_shape (rects ! index)) =
        Arr (xs @ map rect_shape (take (Suc index) rects))"
      by (simp add: take_Suc_conv_app_nth)
    with True "1.hyps" show ?thesis
      by (subst rect_loop.simps) simp
  next
    case False
    with "1.prems" show ?thesis
      by (subst rect_loop.simps) simp
  qed
qed

lemma stroke_loop_eq:
  "stroke_loop ss (Arr xs, length xs) = (Arr (xs @ map stroke_shape ss), length xs + length ss)"
proof (induction ss arbitrary: xs)
  case Nil
  show ?case by simp
next
  case (Cons s ss)
  from Cons [of "xs @ [s']" for s'] show ?case by simp
qed

lemma presence_loop_eq:
  "presence_loop ps (Arr xs, length xs) =
     (Arr (xs @ map (\<lambda>(k, p). presence_val p) ps), length xs + length ps)"
proof (induction ps arbitrary: xs)
  case Nil
  show ?case by simp
next
  case (Cons kp ps)
  obtain k p where kp: "kp = (k, p)" by (cases kp)
  from Cons [of "xs @ [presence_val p]"] show ?case by (simp add: kp)
qed

lemma tick_eq:
  "tick e = Obj [(''document'', Obj [(''id'', Str ''doc-native''), (''name'', Str ''Composition native''),
       (''shapes'', Arr (map rect_shape (rectangles e) @ map stroke_shape (strokes e)))]),
     (''presences'', Arr (map (\<lambda>(k, p). presence_val p) (presences e)))]"
proof -
  have r: "rect_loop (rectangles e) 0 (Arr [], 0) =
      (Arr (map rect_shape (rectangles e)), length (rectangles e))"
    using rect_loop_eq [of 0 "rectangles e" "[]"] by simp
  have s: "stroke_loop (strokes e) (Arr (map rect_shape (rectangles e)), length (rectangles e)) =
      (Arr (map rect_shape (rectangles e) @ map stroke_shape (strokes e)),
       length (rectangles e) + length (strokes e))"
    using stroke_loop_eq [of "strokes e" "map rect_shape (rectangles e)"] by simp
  have p: "presence_loop (presences e) (Arr [], 0) =
      (Arr (map (\<lambda>(k, p). presence_val p) (presences e)), length (presences e))"
    using presence_loop_eq [of "presences e" "[]"] by simp
  show ?thesis
    by (simp add: tick_def r s p)
qed

lemma rectangles_prefix_execute_all: "prefix (rectangles e) (rectangles (execute_all tf e cs))"
  by (simp add: rectangles_execute_all)

lemma stroke_ids_prefix_execute_all:
  "prefix (map stroke_id (strokes e)) (map stroke_id (strokes (execute_all tf e cs)))"
  by (simp add: stroke_ids_execute_all)

text \<open>
  C5. In every engine state the \<open>shapes\<close> array of \<open>tick()\<close> is the rectangles in the
  order of \<open>rectangles_\<close>, each an object of kind \<open>rectangle\<close>, followed by the strokes
  in the order of \<open>strokes_\<close>, each an object of kind \<open>stroke\<close> with all its points in
  order. Both vectors are in insertion order: commands only append to them. A stroke
  started before a rectangle was created still comes after it.
\<close>

theorem tick_shapes_order:
  "val_get (val_get (tick e) ''document'') ''shapes'' =
     Arr (map rect_shape (rectangles e) @ map stroke_shape (strokes e))
   \<and> rect_shape r = Obj [(''id'', Str (rect_id r)), (''name'', Str (rect_name r)),
       (''kind'', Str ''rectangle''), (''x'', Num (rect_x r)), (''y'', Num (rect_y r)),
       (''width'', Num (rect_width r)), (''height'', Num (rect_height r)),
       (''color'', Str (rect_color r))]
   \<and> stroke_shape s = Obj [(''id'', Str (stroke_id s)), (''name'', Str (stroke_name s)),
       (''kind'', Str ''stroke''), (''color'', Str (stroke_color s)), (''size'', Num (stroke_size s)),
       (''points'', Arr (map (\<lambda>p. Obj [(''x'', Num (pt_x p)), (''y'', Num (pt_y p))])
          (stroke_points s)))]
   \<and> prefix (rectangles e) (rectangles (execute_all tf e cs))
   \<and> prefix (map stroke_id (strokes e)) (map stroke_id (strokes (execute_all tf e cs)))
   \<and> val_get (val_get (tick (execute_all id Engine_ctor
        [startStroke ''a'' 1 2 3 ''red'', createRectangle 0 0 10 20 ''blue''])) ''document'') ''shapes'' =
      Arr [Obj [(''id'', Str ''rect-1''), (''name'', Str ''Rectangle 1''),
             (''kind'', Str ''rectangle''), (''x'', Num 0), (''y'', Num 0),
             (''width'', Num 10), (''height'', Num 20), (''color'', Str ''blue'')],
           Obj [(''id'', Str ''a''), (''name'', Str ''Trace 1''), (''kind'', Str ''stroke''),
             (''color'', Str ''red''), (''size'', Num 3),
             (''points'', Arr [Obj [(''x'', Num 1), (''y'', Num 2)]])]]"
proof -
  have pv: "point_val = (\<lambda>p. Obj [(''x'', Num (pt_x p)), (''y'', Num (pt_y p))])"
    by (rule ext) (rule point_val_eq)
  have shapes: "val_get (val_get (tick e) ''document'') ''shapes'' =
     Arr (map rect_shape (rectangles e) @ map stroke_shape (strokes e))" for e :: "'x Engine"
    by (simp add: tick_eq)
  have run: "val_get (val_get (tick (execute_all id Engine_ctor
        [startStroke ''a'' 1 2 3 ''red'', createRectangle 0 0 10 20 ''blue''])) ''document'') ''shapes'' =
      Arr [Obj [(''id'', Str ''rect-1''), (''name'', Str ''Rectangle 1''),
             (''kind'', Str ''rectangle''), (''x'', Num 0), (''y'', Num 0),
             (''width'', Num 10), (''height'', Num 20), (''color'', Str ''blue'')],
           Obj [(''id'', Str ''a''), (''name'', Str ''Trace 1''), (''kind'', Str ''stroke''),
             (''color'', Str ''red''), (''size'', Num 3),
             (''points'', Arr [Obj [(''x'', Num 1), (''y'', Num 2)]])]]"
    unfolding shapes
    by (simp add: eval_defs Engine_ctor_def rect_shape_eq stroke_shape_eq point_val_eq)
  show ?thesis
    unfolding run
    by (simp add: shapes rect_shape_eq stroke_shape_eq pv rectangles_prefix_execute_all
        stroke_ids_prefix_execute_all)
qed

subsection \<open>What the snapshot shows\<close>

lemma rect_shape_inj: "rect_shape r = rect_shape r' \<Longrightarrow> r = r'"
  by (cases r, cases r') (simp add: rect_shape_eq)

lemma point_val_inj: "point_val p = point_val p' \<Longrightarrow> p = p'"
  by (cases p, cases p') (simp add: point_val_eq)

lemma presence_val_inj: "presence_val p = presence_val p' \<Longrightarrow> p = p'"
  by (cases p, cases p') (simp add: presence_val_eq)

lemma inj_point_val: "inj point_val"
  by (rule injI) (rule point_val_inj)

lemma inj_presence_val: "inj presence_val"
  by (rule injI) (rule presence_val_inj)

lemma stroke_shape_inj: "stroke_shape s = stroke_shape s' \<Longrightarrow> s = s'"
  by (cases s, cases s') (simp add: stroke_shape_eq inj_map_eq_map [OF inj_point_val])

lemma inj_stroke_shape: "inj stroke_shape"
  by (rule injI) (rule stroke_shape_inj)

lemma rect_shape_neq_stroke_shape:
  "rect_shape r \<noteq> stroke_shape s" "stroke_shape s \<noteq> rect_shape r"
  by (simp_all add: rect_shape_eq stroke_shape_eq)

lemma shapes_eq_iff:
  "map rect_shape rs @ map stroke_shape ss = map rect_shape rs' @ map stroke_shape ss'
     \<longleftrightarrow> rs = rs' \<and> ss = ss'"
proof (induction rs arbitrary: rs')
  case Nil
  show ?case
  proof (cases rs')
    case Nil
    then show ?thesis by (simp add: inj_map_eq_map [OF inj_stroke_shape])
  next
    case (Cons r' rest)
    then show ?thesis
      by (cases ss) (auto simp: rect_shape_neq_stroke_shape)
  qed
next
  case (Cons r rs)
  show ?case
  proof (cases rs')
    case Nil
    then show ?thesis
      by (cases ss') (auto simp: rect_shape_neq_stroke_shape)
  next
    case (Cons r' rest)
    with Cons.IH [of rest] show ?thesis
      by (auto dest: rect_shape_inj)
  qed
qed

lemma presences_eq_iff:
  "map (\<lambda>(k, p). presence_val p) ps = map (\<lambda>(k, p). presence_val p) ps'
     \<longleftrightarrow> map snd ps = map snd ps'"
proof -
  have "map presence_val (map snd ps) = map presence_val (map snd ps')
      \<longleftrightarrow> map snd ps = map snd ps'"
    by (rule inj_map_eq_map [OF inj_presence_val])
  then show ?thesis by (simp add: case_prod_unfold comp_def)
qed

lemma tick_eq_iff:
  "tick e = tick e' \<longleftrightarrow>
     rectangles e = rectangles e' \<and> strokes e = strokes e'
     \<and> map snd (presences e) = map snd (presences e')"
  by (simp add: tick_eq shapes_eq_iff presences_eq_iff)

lemma run_ticks: "run tf e (replicate n Tick) = Some e"
  by (induction n) simp_all

text \<open>
  C7 as stated fails for \<open>resize\<close> (and for \<open>finishStroke\<close>): the snapshot holds neither
  the canvas size nor the active-stroke index, so it is the same before and after such a
  call although the engine state differs.
\<close>

theorem tick_does_not_show_resize:
  "width (resize (Engine_ctor :: real Engine) 800 600) = 800
   \<and> width (Engine_ctor :: real Engine) = 0
   \<and> resize (Engine_ctor :: real Engine) 800 600 \<noteq> Engine_ctor
   \<and> tick (resize (Engine_ctor :: real Engine) 800 600) = tick (Engine_ctor :: real Engine)
   \<and> execute id (execute id Engine_ctor (startStroke ''a'' 1 2 3 ''red'')) (finishStroke ''a'')
       \<noteq> execute id Engine_ctor (startStroke ''a'' 1 2 3 ''red'')
   \<and> tick (execute id (execute id Engine_ctor (startStroke ''a'' 1 2 3 ''red'')) (finishStroke ''a''))
       = tick (execute id Engine_ctor (startStroke ''a'' 1 2 3 ''red''))"
proof -
  let ?E = "Engine_ctor :: real Engine"
  let ?e1 = "execute id ?E (startStroke ''a'' 1 2 3 ''red'')"
  have w: "width (resize ?E 800 600) = 800" "width ?E = 0"
    by (simp_all add: resize_def Let_def)
  then have ne: "resize ?E 800 600 \<noteq> ?E" by auto
  have t: "tick (resize ?E 800 600) = tick ?E"
    by (simp add: tick_eq_iff resize_def Let_def)
  have "strokeIndex (execute id ?e1 (finishStroke ''a'')) ''a'' = None"
    "strokeIndex ?e1 ''a'' = Some 0"
    by (simp_all add: execute_def startStroke_def finishStroke_def makeStroke_def Let_def)
  then have ne2: "execute id ?e1 (finishStroke ''a'') \<noteq> ?e1" by auto
  have t2: "tick (execute id ?e1 (finishStroke ''a'')) = tick ?e1"
    by (simp add: tick_eq_iff execute_def finishStroke_def)
  from w ne t ne2 t2 show ?thesis by simp
qed

text \<open>
  C7, amended. \<open>tick()\<close> leaves the engine state unchanged, so any number of consecutive
  \<open>tick()\<close> calls return equal snapshots. The snapshot shows exactly the rectangles, the
  strokes with all their points, and the presences of the state at the time of the call:
  two states have equal snapshots exactly when they agree on these, so every mutation of
  them by earlier commands and events is reflected. The canvas size set by \<open>resize\<close>
  and the active-stroke index are not in the snapshot: \<open>resize\<close> and \<open>finishStroke\<close>
  leave it as it was.
\<close>

theorem tick_read_only_and_current:
  "step tf e Tick = Some e
   \<and> run tf e (replicate n Tick) = Some e
   \<and> (tick e = tick e') =
       (rectangles e = rectangles e' \<and> strokes e = strokes e'
        \<and> map snd (presences e) = map snd (presences e'))
   \<and> val_get (val_get (tick e) ''document'') ''shapes'' =
       Arr (map rect_shape (rectangles e) @ map stroke_shape (strokes e))
   \<and> val_get (tick e) ''presences'' = Arr (map (\<lambda>(k, p). presence_val p) (presences e))
   \<and> tick (resize e w h) = tick e
   \<and> tick (execute tf e (c\<lparr>cmd_type := ''finishStroke''\<rparr>)) = tick e"
proof -
  have a: "tick (resize e w h) = tick e"
    by (simp add: tick_eq_iff resize_def Let_def)
  have b: "tick (execute tf e (c\<lparr>cmd_type := ''finishStroke''\<rparr>)) = tick e"
    by (simp add: tick_eq_iff execute_def)
  have c: "val_get (val_get (tick e) ''document'') ''shapes'' =
       Arr (map rect_shape (rectangles e) @ map stroke_shape (strokes e))"
    "val_get (tick e) ''presences'' = Arr (map (\<lambda>(k, p). presence_val p) (presences e))"
    by (simp_all add: tick_eq)
  show ?thesis
    using tick_eq_iff [of e e'] by (simp add: run_ticks a b c)
qed

subsection \<open>Presence\<close>

lemma map_of_set_position:
  "map_of (set_position p x y ps) p' =
     (if p' = p then map_option (\<lambda>q. q\<lparr>pres_x := x, pres_y := y\<rparr>) (map_of ps p)
      else map_of ps p')"
  by (induction ps) auto

lemma keys_set_position: "map fst (set_position p x y ps) = map fst ps"
  by (induction ps) auto

text \<open>
  The first event of a pointer id other than \<open>INT_MIN\<close> adds one entry, with the colour
  \<open>palette[|pointerId| mod 6]\<close>; the other entries stay.
\<close>

lemma pointerEvent_first:
  assumes "ev_type ev = ''pointerMove''" and "map_of (presences e) (ev_pointerId ev) = None"
    and "sint (ev_pointerId ev) \<noteq> - 2147483648"
  shows "pointerEvent tf e ev =
     Some (e\<lparr>presences := presences e @
       [(ev_pointerId ev,
         \<lparr>pres_id = to_string (ev_pointerId ev),
          pres_color = palette ! nat (\<bar>sint (ev_pointerId ev)\<bar> mod 6),
          pres_x = tf (ev_x ev), pres_y = tf (ev_y ev)\<rparr>)]\<rparr>)"
  using assms by (simp add: pointerEvent_def updatePresence_def colorForPointer_in_range)

text \<open>
  A later event of the same pointer id changes \<open>x\<close> and \<open>y\<close> of its entry and nothing
  else: the keys, their order, the other entries, and the id and colour of the entry stay.
\<close>

lemma pointerEvent_later:
  assumes "ev_type ev = ''pointerMove''" and "map_of (presences e) (ev_pointerId ev) = Some q"
  shows "pointerEvent tf e ev =
           Some (e\<lparr>presences := set_position (ev_pointerId ev) (tf (ev_x ev)) (tf (ev_y ev)) (presences e)\<rparr>)"
    and "map_of (set_position (ev_pointerId ev) (tf (ev_x ev)) (tf (ev_y ev)) (presences e)) p' =
           (if p' = ev_pointerId ev then Some (q\<lparr>pres_x := tf (ev_x ev), pres_y := tf (ev_y ev)\<rparr>)
            else map_of (presences e) p')"
    and "map fst (set_position (ev_pointerId ev) (tf (ev_x ev)) (tf (ev_y ev)) (presences e)) =
           map fst (presences e)"
  using assms
  by (simp_all add: pointerEvent_def updatePresence_def map_of_set_position keys_set_position)

lemma presence_keys_pointerEvent:
  assumes "pointerEvent tf e ev = Some e'" and "distinct (map fst (presences e))"
  shows "distinct (map fst (presences e'))"
proof (cases "ev_type ev = ''pointerMove''")
  case False
  with assms show ?thesis by (simp add: pointerEvent_def)
next
  case True
  show ?thesis
  proof (cases "map_of (presences e) (ev_pointerId ev)")
    case None
    then have "ev_pointerId ev \<notin> fst ` set (presences e)"
      by (simp add: map_of_eq_None_iff)
    with assms True None show ?thesis
      by (auto simp: pointerEvent_def updatePresence_def split: option.splits)
  next
    case (Some q)
    with assms True show ?thesis
      by (auto simp: pointerEvent_later(1) keys_set_position)
  qed
qed

lemma presences_resize: "presences (resize e w h) = presences e"
  by (simp add: resize_def Let_def)

lemma presences_execute: "presences (execute tf e c) = presences e"
  by (simp add: execute_def Let_def split: option.split)

lemma presence_keys_step:
  assumes "step tf e c = Some e'" and "distinct (map fst (presences e))"
  shows "distinct (map fst (presences e'))"
proof (cases c)
  case (Resize w h)
  with assms show ?thesis by (auto simp: presences_resize)
next
  case (Execute cmd)
  with assms show ?thesis by (auto simp: presences_execute)
next
  case (PointerEvent ev)
  with assms show ?thesis by (auto intro: presence_keys_pointerEvent)
next
  case Tick
  with assms show ?thesis by simp
qed

text \<open>At most one entry for each pointer id, in every state reached from a new engine.\<close>

lemma presence_keys_run:
  "run tf e calls = Some e' \<Longrightarrow> distinct (map fst (presences e)) \<Longrightarrow>
     distinct (map fst (presences e'))"
proof (induction calls arbitrary: e)
  case Nil
  then show ?case by simp
next
  case (Cons c calls)
  then show ?case
    by (auto split: option.splits dest: presence_keys_step)
qed

lemma presence_keys_reachable:
  "run tf Engine_ctor calls = Some e \<Longrightarrow> distinct (map fst (presences e))"
  by (erule presence_keys_run) simp

text \<open>
  In every state reached from a new engine, the entry of a pointer id carries the id
  printed in decimal and the colour \<open>colorForPointer\<close> returns for it, one of the six of
  the palette: later events do not change them.
\<close>

lemma presence_entries_pointerEvent:
  assumes "pointerEvent tf e ev = Some e'" and "presence_entries_ok e"
  shows "presence_entries_ok e'"
proof (cases "ev_type ev = ''pointerMove''")
  case False
  with assms show ?thesis by (simp add: pointerEvent_def)
next
  case True
  show ?thesis
  proof (cases "map_of (presences e) (ev_pointerId ev)")
    case None
    with assms True show ?thesis
      by (auto simp: pointerEvent_def updatePresence_def presence_entries_ok_def map_add_def
          split: option.splits if_splits)
  next
    case (Some q)
    with assms True show ?thesis
      by (auto simp: pointerEvent_later(1) presence_entries_ok_def map_of_set_position
          split: if_splits)
  qed
qed

lemma presence_entries_step:
  assumes "step tf e c = Some e'" and "presence_entries_ok e"
  shows "presence_entries_ok e'"
proof (cases c)
  case (Resize w h)
  with assms show ?thesis by (auto simp: presences_resize presence_entries_ok_def)
next
  case (Execute cmd)
  with assms show ?thesis by (auto simp: presences_execute presence_entries_ok_def)
next
  case (PointerEvent ev)
  with assms show ?thesis by (auto intro: presence_entries_pointerEvent)
next
  case Tick
  with assms show ?thesis by simp
qed

lemma presence_entries_run:
  "run tf e calls = Some e' \<Longrightarrow> presence_entries_ok e \<Longrightarrow> presence_entries_ok e'"
proof (induction calls arbitrary: e)
  case Nil
  then show ?case by simp
next
  case (Cons c calls)
  then show ?case
    by (auto split: option.splits dest: presence_entries_step)
qed

lemma colorForPointer_SomeD: "colorForPointer p = Some c \<Longrightarrow> c \<in> set palette"
  by (auto simp: colorForPointer_def Let_def split: if_splits)

lemma presence_entries_reachable:
  assumes "run tf Engine_ctor calls = Some e" and "map_of (presences e) p = Some q"
  shows "pres_id q = to_string p \<and> colorForPointer p = Some (pres_color q)
    \<and> pres_color q \<in> set palette"
proof -
  have "presence_entries_ok (Engine_ctor :: 'a Engine)"
    by (simp add: presence_entries_ok_def)
  with assms(1) have "presence_entries_ok e" by (rule presence_entries_run)
  with assms(2) have "pres_id q = to_string p" "colorForPointer p = Some (pres_color q)"
    by (simp_all add: presence_entries_ok_def)
  then show ?thesis by (simp add: colorForPointer_SomeD)
qed

text \<open>Every pointer event of an id other than \<open>INT_MIN\<close> returns.\<close>

lemma pointerEvent_returns:
  assumes "sint (ev_pointerId ev) \<noteq> - 2147483648"
  shows "\<exists>e'. pointerEvent tf e ev = Some e'"
  using assms
  by (simp add: pointerEvent_def updatePresence_def colorForPointer_in_range split: option.split)

text \<open>
  C6. The claim is that over every sequence of \<open>pointerMove\<close> events the first event
  of a pointer id creates one entry with the colour \<open>palette[abs(pointerId) mod 6]\<close>.
  For the pointer id \<open>INT_MIN\<close> the code creates no entry: \<open>colorForPointer\<close> reads
  outside the palette (see C10). For the id 3 the same call creates the entry.
\<close>

theorem pointerEvent_INT_MIN:
  "pointerEvent id (Engine_ctor :: real Engine) (pointerMove (- 2147483648) 10 20) = None
   \<and> run id (Engine_ctor :: real Engine) [PointerEvent (pointerMove (- 2147483648) 10 20)] = None
   \<and> pointerEvent id (Engine_ctor :: real Engine) (pointerMove 3 10 20) =
       Some (Engine_ctor\<lparr>presences :=
         [(3, \<lparr>pres_id = ''3'', pres_color = ''#facc15'', pres_x = 10, pres_y = 20\<rparr>)]\<rparr>)"
  by (simp add: eval_defs Engine_ctor_def)

subsection \<open>Engines made by createEngine\<close>

text \<open>
  \<open>createEngine(w, h)\<close> is a new engine after \<open>resize(w, h)\<close>, and \<open>resize\<close>
  commutes with every command: what is proved of the rectangles, strokes and index of runs
  from a new engine holds of runs from \<open>createEngine(w, h)\<close>.
\<close>

lemma resize_eq:
  "resize e w h = e\<lparr>width := (if sint w < 0 then 0 else w), height := (if sint h < 0 then 0 else h)\<rparr>"
  by (simp add: resize_def Let_def)

lemma execute_resize: "execute tf (resize e w h) c = resize (execute tf e c) w h"
  by (simp add: resize_eq execute_def findStroke_def makeRectangle_def Let_def split: option.split)

lemma execute_all_resize: "execute_all tf (resize e w h) cs = resize (execute_all tf e cs) w h"
  by (induction cs arbitrary: e) (simp_all add: execute_resize)

lemma execute_all_createEngine:
  "rectangles (execute_all tf (createEngine w h) cs) = rectangles (execute_all tf Engine_ctor cs)"
  "strokes (execute_all tf (createEngine w h) cs) = strokes (execute_all tf Engine_ctor cs)"
  "strokeIndex (execute_all tf (createEngine w h) cs) = strokeIndex (execute_all tf Engine_ctor cs)"
proof -
  have "execute_all tf (createEngine w h) cs = resize (execute_all tf Engine_ctor cs) w h"
    by (simp only: createEngine_def execute_all_resize)
  then show
    "rectangles (execute_all tf (createEngine w h) cs) = rectangles (execute_all tf Engine_ctor cs)"
    "strokes (execute_all tf (createEngine w h) cs) = strokes (execute_all tf Engine_ctor cs)"
    "strokeIndex (execute_all tf (createEngine w h) cs) = strokeIndex (execute_all tf Engine_ctor cs)"
    by (simp_all add: resize_eq)
qed

lemma run_createEngine:
  "run tf (createEngine w h) calls = run tf Engine_ctor (Resize w h # calls)"
  by (simp add: createEngine_def)

lemma run_executes:
  "run tf e (map Execute cs) = Some (execute_all tf e cs)"
  by (induction cs arbitrary: e) simp_all

end
